theory Spec2Isabelle
  imports Main "HOL-Library.Sublist" "HOL-Library.AList"
begin

section \<open>Python strings\<close>

text \<open>
  A Python \<^verbatim>\<open>str\<close> is a sequence of Unicode code points. The bot's texts hold
  code points far above 255 (the emoji of the headers), so a string is a list of
  natural numbers, one per code point, and \<open>ascii\<close> reads an ASCII literal.
\<close>

type_synonym pystr = "nat list"

definition ascii :: "string \<Rightarrow> pystr" where
  "ascii s = map of_char s"

text \<open>
  \<^verbatim>\<open>str.isspace\<close> for one code point. \<^verbatim>\<open>str.split()\<close>, \<^verbatim>\<open>str.strip()\<close> and the
  classes \<^verbatim>\<open>\s\<close>, \<^verbatim>\<open>\S\<close> of \<^verbatim>\<open>re\<close> on a \<^verbatim>\<open>str\<close> pattern all use this set.
\<close>

definition isspace :: "nat \<Rightarrow> bool" where
  "isspace c \<longleftrightarrow>
     (0x09 \<le> c \<and> c \<le> 0x0D) \<or> (0x1C \<le> c \<and> c \<le> 0x20) \<or> c = 0x85 \<or> c = 0xA0 \<or>
     c = 0x1680 \<or> (0x2000 \<le> c \<and> c \<le> 0x200A) \<or> c = 0x2028 \<or> c = 0x2029 \<or>
     c = 0x202F \<or> c = 0x205F \<or> c = 0x3000"

text \<open>\<^verbatim>\<open>text.strip()\<close>: whitespace removed at both ends.\<close>

definition py_strip :: "pystr \<Rightarrow> pystr" where
  "py_strip s = rev (dropWhile isspace (rev (dropWhile isspace s)))"

text \<open>
  \<^verbatim>\<open>text.split()\<close> with no separator: the maximal runs of non-whitespace, no empty
  token. \<open>split_ws cur s\<close> scans \<open>s\<close> with the token \<open>cur\<close> being collected.
\<close>

fun split_ws :: "pystr \<Rightarrow> pystr \<Rightarrow> pystr list" where
  "split_ws cur [] = (if cur = [] then [] else [cur])"
| "split_ws cur (c # cs) =
     (if isspace c then (if cur = [] then split_ws [] cs else cur # split_ws [] cs)
      else split_ws (cur @ [c]) cs)"

definition py_split :: "pystr \<Rightarrow> pystr list" where
  "py_split s = split_ws [] s"

text \<open>\<^verbatim>\<open>sep.join(xs)\<close>.\<close>

fun py_join :: "pystr \<Rightarrow> pystr list \<Rightarrow> pystr" where
  "py_join sep [] = []"
| "py_join sep [x] = x"
| "py_join sep (x # y # ys) = x @ sep @ py_join sep (y # ys)"

text \<open>\<^verbatim>\<open>s.startswith(p)\<close>.\<close>

definition startswith :: "pystr \<Rightarrow> pystr \<Rightarrow> bool" where
  "startswith s p \<longleftrightarrow> take (length p) s = p"

text \<open>\<^verbatim>\<open>str(n)\<close> for an integer: decimal digits, a minus sign when negative.\<close>

fun digits :: "nat \<Rightarrow> pystr" where
  "digits n = (if n < 10 then [48 + n] else digits (n div 10) @ [48 + n mod 10])"

declare digits.simps [simp del]

definition str_int :: "int \<Rightarrow> pystr" where
  "str_int i = (if i < 0 then 45 # digits (nat (- i)) else digits (nat i))"

text \<open>
  Truthiness of an optional string (\<^verbatim>\<open>None\<close> and \<^verbatim>\<open>""\<close> are false) and the
  \<^verbatim>\<open>a or b\<close> of two such values.
\<close>

definition truthy :: "pystr option \<Rightarrow> bool" where
  "truthy v \<longleftrightarrow> (case v of None \<Rightarrow> False | Some s \<Rightarrow> s \<noteq> [])"

definition py_or :: "pystr option \<Rightarrow> pystr option \<Rightarrow> pystr option" where
  "py_or a b = (if truthy a then a else b)"

text \<open>An optional string inside an f-string: \<^verbatim>\<open>None\<close> prints as \<^verbatim>\<open>None\<close>.\<close>

definition fmt :: "pystr option \<Rightarrow> pystr" where
  "fmt v = (case v of None \<Rightarrow> ascii ''None'' | Some s \<Rightarrow> s)"

section \<open>Parsing the arguments of /add\<close>

text \<open>
  \<^verbatim>\<open>re.compile(r"^https?://\S+$").match(s)\<close>: after \<^verbatim>\<open>http\<close> the next character
  decides whether the optional \<^verbatim>\<open>s\<close> is taken, so the scheme is one of two fixed
  prefixes; the rest is a non-empty run of non-whitespace that reaches the end of the
  string, or the newline that ends the string (where \<^verbatim>\<open>$\<close> matches too).
\<close>

definition nonspace_run :: "pystr \<Rightarrow> bool" where
  "nonspace_run s \<longleftrightarrow> s \<noteq> [] \<and> list_all (\<lambda>c. \<not> isspace c) s"

definition after_scheme :: "pystr \<Rightarrow> pystr option" where
  "after_scheme s =
     (if startswith s (ascii ''https://'') then Some (drop 8 s)
      else if startswith s (ascii ''http://'') then Some (drop 7 s)
      else None)"

definition url_pattern_match :: "pystr \<Rightarrow> bool" where
  "url_pattern_match s =
     (case after_scheme s of
        None \<Rightarrow> False
      | Some r \<Rightarrow> nonspace_run r \<or> (r \<noteq> [] \<and> last r = 10 \<and> nonspace_run (butlast r)))"

text \<open>
  The loop \<^verbatim>\<open>for i in range(len(parts) - 1, -1, -1)\<close> with its \<^verbatim>\<open>break\<close>:
  \<open>find_url_idx parts n\<close> tries the indices \<open>n - 1\<close> down to \<open>0\<close>.
\<close>

fun find_url_idx :: "pystr list \<Rightarrow> nat \<Rightarrow> nat option" where
  "find_url_idx parts 0 = None"
| "find_url_idx parts (Suc i) =
     (if url_pattern_match (parts ! i) then Some i else find_url_idx parts i)"

text \<open>
  \<^verbatim>\<open>parse_add_args\<close> returns the triple (category, title, url); the triple of
  \<^verbatim>\<open>None\<close> is its no-match value.
\<close>

definition parse_add_args :: "pystr \<Rightarrow> pystr option \<times> pystr option \<times> pystr option" where
  "parse_add_args text =
     (let parts0 = py_split (py_strip text);
          parts = (if parts0 \<noteq> [] \<and> startswith (hd parts0) (ascii ''/add'')
                   then tl parts0 else parts0)
      in if parts = [] then (None, None, None)
         else case find_url_idx parts (length parts) of
                None \<Rightarrow> (None, None, None)
              | Some url_idx \<Rightarrow>
                  (Some (hd parts),
                   Some (if url_idx > 1 then py_join [32] (take (url_idx - 1) (drop 1 parts))
                         else []),
                   Some (parts ! url_idx)))"

section \<open>The catalogue document\<close>

text \<open>
  \<^verbatim>\<open>data.json\<close> as the code reads it. A key read only through \<^verbatim>\<open>.get(key)\<close> is an
  option (\<open>None\<close> for a missing key and for \<^verbatim>\<open>null\<close>, which \<^verbatim>\<open>.get\<close> cannot tell
  apart). A category's \<^verbatim>\<open>message_id\<close> is also read as \<^verbatim>\<open>info["message_id"]\<close>, which
  raises on a missing key and returns \<^verbatim>\<open>None\<close> on \<^verbatim>\<open>null\<close>, so it has three cases.
  \<^verbatim>\<open>links\<close> is \<open>None\<close> when the key is missing (\<^verbatim>\<open>.get("links", [])\<close>,
  \<^verbatim>\<open>.setdefault("links", [])\<close>). \<^verbatim>\<open>categorias\<close> is a \<^verbatim>\<open>dict\<close>: an association list in
  insertion order, each key once.
\<close>

record link_entry =
  texto :: "pystr option"
  url :: "pystr option"
  autor :: "pystr option"

datatype msg_id = Absent | Null | Num int

record category =
  message_id :: msg_id
  links :: "link_entry list option"

record document =
  channel_username :: "pystr option"
  indice_message_id :: "int option"
  categorias :: "(pystr \<times> category) list"

text \<open>\<^verbatim>\<open>info.get("links", [])\<close>.\<close>

definition get_links :: "category \<Rightarrow> link_entry list" where
  "get_links info = (case links info of None \<Rightarrow> [] | Some ls \<Rightarrow> ls)"

text \<open>
  Truthiness of \<^verbatim>\<open>info.get("message_id")\<close> and of \<^verbatim>\<open>data.get("indice_message_id")\<close>:
  a missing key, \<^verbatim>\<open>null\<close> and \<^verbatim>\<open>0\<close> are all false.
\<close>

definition msg_id_set :: "msg_id \<Rightarrow> bool" where
  "msg_id_set m \<longleftrightarrow> (case m of Num n \<Rightarrow> n \<noteq> 0 | _ \<Rightarrow> False)"

definition int_set :: "int option \<Rightarrow> bool" where
  "int_set v \<longleftrightarrow> (case v of Some n \<Rightarrow> n \<noteq> 0 | None \<Rightarrow> False)"

section \<open>Rendering\<close>

text \<open>
  The loop of \<^verbatim>\<open>format_index\<close>: one line appended to \<open>lines\<close> per item of
  \<^verbatim>\<open>data["categorias"]\<close>. \<open>info['message_id']\<close> is read only where
  \<^verbatim>\<open>info.get("message_id")\<close> is true, so it is an integer there.
\<close>

fun index_lines :: "document \<Rightarrow> (pystr \<times> category) list \<Rightarrow> pystr list \<Rightarrow> pystr list" where
  "index_lines data [] lines = lines"
| "index_lines data ((cat, info) # rest) lines =
     (let count = int (length (get_links info));
          jump = (if truthy (channel_username data) \<and> msg_id_set (message_id info)
                  then [32, 0x2014, 32] @ ascii ''<a href='' @ [34] @ ascii ''https://t.me/'' @
                       dropWhile (\<lambda>c. c = 64) (fmt (channel_username data)) @ ascii ''/'' @
                       (case message_id info of Num n \<Rightarrow> str_int n | _ \<Rightarrow> ascii ''None'') @
                       [34] @ ascii ''>ir</a>''
                  else [])
      in index_lines data rest
           (lines @ [[0x2022, 32] @ ascii ''<b>'' @ cat @ ascii ''</b> ('' @ str_int count @
                     ascii '')'' @ jump]))"

definition index_header :: pystr where
  "index_header = [0x1F4DA, 32] @ ascii ''<b>'' @ [0xCD] @ ascii ''NDICE</b>'' @ [10]"

definition format_index :: "document \<Rightarrow> pystr" where
  "format_index data = py_join [10] (index_lines data (categorias data) [index_header])"

text \<open>
  The loop of \<^verbatim>\<open>format_category_message\<close>: \<^verbatim>\<open>enumerate(links, start=1)\<close>, the
  counter being \<open>i\<close>.
\<close>

fun category_lines :: "link_entry list \<Rightarrow> nat \<Rightarrow> pystr list \<Rightarrow> pystr list" where
  "category_lines [] i lines = lines"
| "category_lines (item # rest) i lines =
     (let title = py_or (texto item) (url item)
      in category_lines rest (Suc i)
           (lines @ [str_int (int i) @ ascii ''. <a href='' @ [34] @ fmt (url item) @ [34] @
                     ascii ''>'' @ fmt title @ ascii ''</a>'']))"

text \<open>
  \<^verbatim>\<open>cat_name.upper()\<close> needs the case tables of the Python runtime, which the
  repository does not hold: \<open>upper\<close> (and \<open>lower\<close> below) is a parameter, so every
  theorem holds for whatever the runtime computes.
\<close>

definition format_category_message ::
  "(pystr \<Rightarrow> pystr) \<Rightarrow> pystr \<Rightarrow> link_entry list \<Rightarrow> pystr" where
  "format_category_message upper cat_name lks =
     (let header = [0x1F4CE, 32] @ ascii ''<b>'' @ upper cat_name @ ascii ''</b> ('' @
                   str_int (int (length lks)) @ ascii '' enlaces)'' @ [10, 10]
      in if lks = []
         then header @ ascii ''_No hay enlaces a'' @ [0xFA] @
              ascii ''n. Agrega alguno con_ /add''
         else header @ py_join [10] (category_lines lks 1 []))"

text \<open>
  The case mapping of Python on the code points below 256, for the examples:
  \<^verbatim>\<open>A-Z\<close> and \<^verbatim>\<open>U+00C0-U+00DE\<close> without the multiplication sign lower by adding 32;
  upper is the inverse, except that the micro sign, the sharp s and the y with
  diaeresis leave the range. Above 255 these two leave a code point as it is, which
  is not what Python does: they are used on the examples only.
\<close>

definition latin1_lower :: "pystr \<Rightarrow> pystr" where
  "latin1_lower s =
     map (\<lambda>c. if (0x41 \<le> c \<and> c \<le> 0x5A) \<or> (0xC0 \<le> c \<and> c \<le> 0xDE \<and> c \<noteq> 0xD7)
               then c + 32 else c) s"

definition latin1_upper :: "pystr \<Rightarrow> pystr" where
  "latin1_upper s =
     concat (map (\<lambda>c. if (0x61 \<le> c \<and> c \<le> 0x7A) \<or> (0xE0 \<le> c \<and> c \<le> 0xFE \<and> c \<noteq> 0xF7)
                       then [c - 32]
                       else if c = 0xB5 then [0x39C]
                       else if c = 0xDF then [0x53, 0x53]
                       else if c = 0xFF then [0x178]
                       else [c]) s)"

section \<open>The file, the channel and the chat\<close>

text \<open>
  What a handler does to the outside is a trace of effects in the order of the code:
  calls of the Bot API with what came back, writes of \<^verbatim>\<open>data.json\<close>, replies to the
  user and log records. \<^verbatim>\<open>send_message\<close> returns a message, of which the code reads
  the \<^verbatim>\<open>message_id\<close>, or raises; \<^verbatim>\<open>edit_message_text\<close> returns or raises, and what
  it returns is not read. The remote side is any function from the number of the
  call to its response. All calls use \<^verbatim>\<open>ParseMode.HTML\<close>; the flag kept is
  \<^verbatim>\<open>disable_web_page_preview\<close>. Writing the file and replying are taken to succeed.
\<close>

datatype api_call =
  SendMessage pystr pystr bool
| EditMessageText pystr "int option" pystr bool

datatype response = Returned int | Raised

type_synonym remote = "nat \<Rightarrow> response"

datatype level = Info | Warning | Error

datatype log_msg =
  ChannelNull
| CreatedIndex int
| CreatedCategory pystr int
| DataUpdated
| FailedEditCategory
| FailedEditIndex
| ErrorRefreshingCategory pystr
| ErrorRefreshingIndex

datatype effect =
  Call api_call response
| Save document
| Reply pystr
| Log level log_msg

datatype error = FileNotFoundError | KeyError pystr | RemoteError

record world =
  data_file :: "document option"
  ncalls :: nat
  trace :: "effect list"

definition load_data :: "world \<Rightarrow> error + document" where
  "load_data w = (case data_file w of None \<Rightarrow> Inl FileNotFoundError | Some d \<Rightarrow> Inr d)"

definition save_data :: "document \<Rightarrow> world \<Rightarrow> world" where
  "save_data data w = w\<lparr>data_file := Some data, trace := trace w @ [Save data]\<rparr>"

definition bot_call :: "remote \<Rightarrow> api_call \<Rightarrow> world \<Rightarrow> response \<times> world" where
  "bot_call r c w =
     (r (ncalls w), w\<lparr>ncalls := Suc (ncalls w), trace := trace w @ [Call c (r (ncalls w))]\<rparr>)"

definition reply_text :: "pystr \<Rightarrow> world \<Rightarrow> world" where
  "reply_text t w = w\<lparr>trace := trace w @ [Reply t]\<rparr>"

definition logger :: "level \<Rightarrow> log_msg \<Rightarrow> world \<Rightarrow> world" where
  "logger l m w = w\<lparr>trace := trace w @ [Log l m]\<rparr>"

text \<open>\<^verbatim>\<open>data["categorias"][cat]["message_id"] = mid\<close>.\<close>

definition set_message_id :: "pystr \<Rightarrow> int \<Rightarrow> document \<Rightarrow> document" where
  "set_message_id cat mid data =
     data\<lparr>categorias := AList.map_entry cat (\<lambda>info. info\<lparr>message_id := Num mid\<rparr>) (categorias data)\<rparr>"

section \<open>Startup: ensure_channel_messages\<close>

text \<open>
  The loop over \<^verbatim>\<open>data["categorias"].items()\<close>. \<open>info\<close> is the record of \<open>cat\<close> as the
  loop meets it; \<^verbatim>\<open>send_message\<close> is not inside a \<^verbatim>\<open>try\<close>, so a failure leaves the
  function. The argument and result carry \<open>data\<close>, \<open>modified\<close> and the world.
\<close>

fun ensure_categories ::
  "(pystr \<Rightarrow> pystr) \<Rightarrow> remote \<Rightarrow> pystr \<Rightarrow> (pystr \<times> category) list \<Rightarrow>
   document \<times> bool \<times> world \<Rightarrow> (error + document \<times> bool) \<times> world" where
  "ensure_categories upper r chat_id [] (data, modified, w) = (Inr (data, modified), w)"
| "ensure_categories upper r chat_id ((cat, info) # rest) (data, modified, w) =
     (if \<not> msg_id_set (message_id info)
      then let text = format_category_message upper cat (get_links info);
               (msg, w1) = bot_call r (SendMessage chat_id text False) w
           in case msg of
                Raised \<Rightarrow> (Inl RemoteError, w1)
              | Returned mid \<Rightarrow>
                  ensure_categories upper r chat_id rest
                    (set_message_id cat mid data, True,
                     logger Info (CreatedCategory cat mid) w1)
      else ensure_categories upper r chat_id rest (data, modified, w))"

definition ensure_channel_messages ::
  "(pystr \<Rightarrow> pystr) \<Rightarrow> remote \<Rightarrow> world \<Rightarrow> (error + unit) \<times> world" where
  "ensure_channel_messages upper r w =
     (case load_data w of
        Inl e \<Rightarrow> (Inl e, w)
      | Inr data \<Rightarrow>
          if \<not> truthy (channel_username data)
          then (Inr (), logger Warning ChannelNull w)
          else
            let chat_id = fmt (channel_username data);
                index_step =
                  (if \<not> int_set (indice_message_id data)
                   then let text = format_index data;
                            (msg, w1) = bot_call r (SendMessage chat_id text True) w
                        in case msg of
                             Raised \<Rightarrow> (Inl RemoteError, w1)
                           | Returned mid \<Rightarrow>
                               (Inr (data\<lparr>indice_message_id := Some mid\<rparr>, True),
                                logger Info (CreatedIndex mid) w1)
                   else (Inr (data, False), w))
            in case index_step of
                 (Inl e, w1) \<Rightarrow> (Inl e, w1)
               | (Inr (data1, modified1), w1) \<Rightarrow>
                   (case ensure_categories upper r chat_id (categorias data1)
                           (data1, modified1, w1) of
                      (Inl e, w2) \<Rightarrow> (Inl e, w2)
                    | (Inr (data2, modified2), w2) \<Rightarrow>
                        if modified2
                        then (Inr (), logger Info DataUpdated (save_data data2 w2))
                        else (Inr (), w2)))"

section \<open>The /add command\<close>

text \<open>What the handler reads of the update: the sender and the text of the message.\<close>

record update =
  user_username :: "pystr option"
  user_full_name :: pystr
  message_text :: pystr

text \<open>
  \<^verbatim>\<open>[c for c in data["categorias"].keys() if c.lower() == category.lower()]\<close>.
\<close>

definition category_matches :: "(pystr \<Rightarrow> pystr) \<Rightarrow> document \<Rightarrow> pystr \<Rightarrow> pystr list" where
  "category_matches lower data category =
     filter (\<lambda>c. lower c = lower category) (map fst (categorias data))"

text \<open>
  \<^verbatim>\<open>data["categorias"][cat_key].setdefault("links", []).append(entry)\<close>.
\<close>

definition append_link :: "pystr \<Rightarrow> link_entry \<Rightarrow> document \<Rightarrow> document" where
  "append_link cat_key entry data =
     data\<lparr>categorias :=
            AList.map_entry cat_key (\<lambda>info. info\<lparr>links := Some (get_links info @ [entry])\<rparr>)
              (categorias data)\<rparr>"

definition usage_text :: pystr where
  "usage_text =
     ascii ''Uso inv'' @ [0xE1] @ ascii ''lido. Formato correcto:'' @ [10] @
     ascii ''/add <Categor'' @ [0xED] @ ascii ''a> <T'' @ [0xED] @
     ascii ''tulo opcional> <URL>'' @ [10] @ ascii ''Ejemplo:'' @ [10] @
     ascii ''/add Dise'' @ [0xF1] @ ascii ''o Vectorizar imagen https://example.com''"

definition not_found_text :: "pystr \<Rightarrow> pystr" where
  "not_found_text category =
     ascii ''Categor'' @ [0xED] @ ascii ''a '' @ [39] @ category @ [39] @
     ascii '' no encontrada. Usa /list para ver categor'' @ [0xED] @
     ascii ''as disponibles.''"

definition added_text :: "pystr \<Rightarrow> pystr" where
  "added_text cat_key =
     ascii ''Enlace agregado a <b>'' @ cat_key @ ascii ''</b> '' @ [0x2705]"

text \<open>
  The part of \<^verbatim>\<open>add_command\<close> under \<^verbatim>\<open>if channel:\<close>. \<^verbatim>\<open>data["categorias"][cat_key]\<close>,
  \<^verbatim>\<open>["message_id"]\<close> and \<^verbatim>\<open>["links"]\<close> are plain indexing, outside any \<^verbatim>\<open>try\<close>: a
  missing key raises \<^verbatim>\<open>KeyError\<close> and leaves the handler. Each
  \<^verbatim>\<open>edit_message_text\<close> has its own \<^verbatim>\<open>try\<close>, whose handler logs.
\<close>

definition add_update_channel ::
  "(pystr \<Rightarrow> pystr) \<Rightarrow> remote \<Rightarrow> document \<Rightarrow> pystr \<Rightarrow> world \<Rightarrow> (error + unit) \<times> world" where
  "add_update_channel upper r data cat_key w =
     (let chat_id = fmt (channel_username data)
      in case map_of (categorias data) cat_key of
           None \<Rightarrow> (Inl (KeyError cat_key), w)
         | Some info \<Rightarrow>
             (case message_id info of
                Absent \<Rightarrow> (Inl (KeyError (ascii ''message_id'')), w)
              | _ \<Rightarrow>
                  (case links info of
                     None \<Rightarrow> (Inl (KeyError (ascii ''links'')), w)
                   | Some lks \<Rightarrow>
                       let cat_msg_id = (case message_id info of Num n \<Rightarrow> Some n | _ \<Rightarrow> None);
                           new_text = format_category_message upper cat_key lks;
                           (res, w1) = bot_call r (EditMessageText chat_id cat_msg_id new_text False) w;
                           w2 = (case res of Raised \<Rightarrow> logger Error FailedEditCategory w1
                                 | Returned _ \<Rightarrow> w1);
                           idx_id = indice_message_id data
                       in if int_set idx_id
                          then let idx_text = format_index data;
                                   (res2, w3) = bot_call r (EditMessageText chat_id idx_id idx_text True) w2
                               in (Inr (), (case res2 of Raised \<Rightarrow> logger Error FailedEditIndex w3
                                            | Returned _ \<Rightarrow> w3))
                          else (Inr (), w2))))"

definition add_command ::
  "(pystr \<Rightarrow> pystr) \<Rightarrow> (pystr \<Rightarrow> pystr) \<Rightarrow> remote \<Rightarrow> update \<Rightarrow> world \<Rightarrow> (error + unit) \<times> world" where
  "add_command lower upper r upd w =
     (case parse_add_args (message_text upd) of (category, title, u) \<Rightarrow>
        if \<not> truthy category \<or> \<not> truthy u
        then (Inr (), reply_text usage_text w)
        else
          case load_data w of
            Inl e \<Rightarrow> (Inl e, w)
          | Inr data \<Rightarrow>
              (case category_matches lower data (fmt category) of
                 [] \<Rightarrow> (Inr (), reply_text (not_found_text (fmt category)) w)
               | cat_key # _ \<Rightarrow>
                   let entry = \<lparr>texto = py_or title u, url = u,
                                autor = py_or (user_username upd) (Some (user_full_name upd))\<rparr>;
                       data1 = append_link cat_key entry data;
                       w1 = save_data data1 w
                   in if truthy (channel_username data1)
                      then (case add_update_channel upper r data1 cat_key w1 of
                              (Inl e, w2) \<Rightarrow> (Inl e, w2)
                            | (Inr _, w2) \<Rightarrow> (Inr (), reply_text (added_text cat_key) w2))
                      else (Inr (), reply_text (added_text cat_key) w1)))"

section \<open>The /refresh command\<close>

text \<open>
  The loop over the categories: the whole body is inside one \<^verbatim>\<open>try\<close>, so a failed
  edit or send is logged and the loop goes on; only a successful send of a category
  without message id stores an id.
\<close>

fun refresh_categories ::
  "(pystr \<Rightarrow> pystr) \<Rightarrow> remote \<Rightarrow> pystr \<Rightarrow> (pystr \<times> category) list \<Rightarrow>
   document \<times> world \<Rightarrow> document \<times> world" where
  "refresh_categories upper r chat_id [] (data, w) = (data, w)"
| "refresh_categories upper r chat_id ((cat, info) # rest) (data, w) =
     (let msg_id = message_id info;
          text = format_category_message upper cat (get_links info)
      in if msg_id_set msg_id
         then let (res, w1) = bot_call r (EditMessageText chat_id
                                (case msg_id of Num n \<Rightarrow> Some n | _ \<Rightarrow> None) text False) w
              in refresh_categories upper r chat_id rest
                   (data, (case res of Raised \<Rightarrow> logger Error (ErrorRefreshingCategory cat) w1
                           | Returned _ \<Rightarrow> w1))
         else let (msg, w1) = bot_call r (SendMessage chat_id text False) w
              in case msg of
                   Raised \<Rightarrow>
                     refresh_categories upper r chat_id rest
                       (data, logger Error (ErrorRefreshingCategory cat) w1)
                 | Returned mid \<Rightarrow>
                     refresh_categories upper r chat_id rest (set_message_id cat mid data, w1))"

definition refresh_command ::
  "(pystr \<Rightarrow> pystr) \<Rightarrow> remote \<Rightarrow> world \<Rightarrow> (error + unit) \<times> world" where
  "refresh_command upper r w =
     (case load_data w of
        Inl e \<Rightarrow> (Inl e, w)
      | Inr data \<Rightarrow>
          if \<not> truthy (channel_username data)
          then (Inr (), reply_text
                  (ascii ''channel_username no est'' @ [0xE1] @
                   ascii '' configurado en data.json. Edita el archivo y pon el @username del canal.'') w)
          else
            let chat_id = fmt (channel_username data);
                (data1, w1) = refresh_categories upper r chat_id (categorias data) (data, w);
                idx_id = indice_message_id data1;
                idx_text = format_index data1;
                (data2, w2) =
                  (if int_set idx_id
                   then let (res, w') = bot_call r (EditMessageText chat_id idx_id idx_text True) w1
                        in (data1, (case res of Raised \<Rightarrow> logger Error ErrorRefreshingIndex w'
                                    | Returned _ \<Rightarrow> w'))
                   else let (msg, w') = bot_call r (SendMessage chat_id idx_text True) w1
                        in case msg of
                             Raised \<Rightarrow> (data1, logger Error ErrorRefreshingIndex w')
                           | Returned mid \<Rightarrow> (data1\<lparr>indice_message_id := Some mid\<rparr>, w'))
            in (Inr (), reply_text (ascii ''Canal regenerado '' @ [0x2705]) (save_data data2 w2)))"

section \<open>Example inputs\<close>

text \<open>
  The command texts of the specification's examples and the documents the properties
  below are run on. In the category name of the examples the n with tilde is code
  point 241 (209 in upper case); the i with acute accent is 237.
\<close>

definition add_titled_example :: pystr where
  "add_titled_example =
     ascii ''/add Dise'' @ [0xF1] @ ascii ''o Mi t'' @ [0xED] @
     ascii ''tulo https://example.com/x''"

definition add_no_url_example :: pystr where
  "add_no_url_example = ascii ''/add Dise'' @ [0xF1] @ ascii ''o sin-url-aqu'' @ [0xED]"

definition add_url_only_example :: pystr where
  "add_url_only_example = ascii ''/add https://example.com/x''"

definition Diseno :: pystr where
  "Diseno = ascii ''Dise'' @ [0xF1] @ ascii ''o''"

definition example_url :: pystr where
  "example_url = ascii ''https://example.com/x''"


definition videos_doc :: document where
  "videos_doc =
     \<lparr>channel_username = Some (ascii ''@canal''), indice_message_id = None,
      categorias = [(ascii ''Videos'', \<lparr>message_id = Null, links = Some []\<rparr>)]\<rparr>"

definition no_channel_doc :: document where
  "no_channel_doc = videos_doc\<lparr>channel_username := None\<rparr>"

text \<open>A category record written without the \<^verbatim>\<open>message_id\<close> key.\<close>

definition keyless_doc :: document where
  "keyless_doc =
     \<lparr>channel_username = Some (ascii ''@canal''), indice_message_id = Some 5,
      categorias = [(ascii ''Videos'', \<lparr>message_id = Absent, links = Some []\<rparr>)]\<rparr>"

definition world_of :: "document \<Rightarrow> world" where
  "world_of d = \<lparr>data_file = Some d, ncalls = 0, trace = []\<rparr>"

text \<open>A channel that answers every call, the n-th with message id 100 + n, and one that fails every call.\<close>

definition remote_ok :: remote where
  "remote_ok n = Returned (100 + int n)"

definition remote_down :: remote where
  "remote_down n = Raised"

definition update_of :: "pystr \<Rightarrow> update" where
  "update_of text =
     \<lparr>user_username = Some (ascii ''ana''), user_full_name = ascii ''Ana'', message_text = text\<rparr>"

text \<open>\<open>keyless_doc\<close> after /add has appended \<^verbatim>\<open>https://example.com/x\<close> to Videos.\<close>

definition keyless_saved :: document where
  "keyless_saved =
     keyless_doc\<lparr>categorias :=
       [(ascii ''Videos'',
         \<lparr>message_id = Absent,
          links = Some [\<lparr>texto = Some example_url, url = Some example_url,
                         autor = Some (ascii ''ana'')\<rparr>]\<rparr>)]\<rparr>"

text \<open>A catalogue with a category that is named like a URL.\<close>

definition url_named_doc :: document where
  "url_named_doc =
     \<lparr>channel_username = None, indice_message_id = None,
      categorias = [(example_url, \<lparr>message_id = Null, links = None\<rparr>)]\<rparr>"

text \<open>The example key in lower case and in upper case, and a catalogue that holds it.\<close>

definition diseno_lowercase :: pystr where
  "diseno_lowercase = ascii ''dise'' @ [0xF1] @ ascii ''o''"

definition diseno_uppercase :: pystr where
  "diseno_uppercase = ascii ''DISE'' @ [0xD1] @ ascii ''O''"

definition diseno_doc :: document where
  "diseno_doc =
     \<lparr>channel_username = None, indice_message_id = None,
      categorias = [(ascii ''Videos'', \<lparr>message_id = Null, links = Some []\<rparr>),
                    (Diseno, \<lparr>message_id = Null, links = Some []\<rparr>)]\<rparr>"

definition add_uppercase_example :: pystr where
  "add_uppercase_example = ascii ''/add '' @ diseno_uppercase @ ascii '' https://example.com/x''"

text \<open>A catalogue whose messages are published, before and after /add appends the example URL to Videos.\<close>

definition published_doc :: document where
  "published_doc =
     \<lparr>channel_username = Some (ascii ''@canal''), indice_message_id = Some 5,
      categorias = [(ascii ''Videos'', \<lparr>message_id = Num 7, links = Some []\<rparr>)]\<rparr>"

definition published_saved :: document where
  "published_saved =
     published_doc\<lparr>categorias :=
       [(ascii ''Videos'',
         \<lparr>message_id = Num 7,
          links = Some [\<lparr>texto = Some example_url, url = Some example_url,
                         autor = Some (ascii ''ana'')\<rparr>]\<rparr>)]\<rparr>"

text \<open>
  A catalogue with a set index id, a category with a set id and two stored links, and a
  category without id; the /add sent to it, and the documents the operations leave.
\<close>

definition stocked_doc :: document where
  "stocked_doc =
     \<lparr>channel_username = Some (ascii ''@canal''), indice_message_id = Some 5,
      categorias =
        [(ascii ''Videos'',
          \<lparr>message_id = Num 7,
           links = Some [\<lparr>texto = Some [], url = Some example_url, autor = Some (ascii ''ana'')\<rparr>,
                         \<lparr>texto = Some (ascii ''Gu'' @ [0xED] @ ascii ''a''),
                          url = Some (ascii ''http://a.b/c''), autor = Some (ascii ''ana'')\<rparr>]\<rparr>),
         (Diseno, \<lparr>message_id = Null, links = None\<rparr>)]\<rparr>"

definition stocked_update :: update where
  "stocked_update = update_of (ascii ''/add videos Otro https://example.com/y'')"

definition stocked_after_add :: document where
  "stocked_after_add =
     stocked_doc\<lparr>categorias :=
       [(ascii ''Videos'',
         \<lparr>message_id = Num 7,
          links = Some [\<lparr>texto = Some [], url = Some example_url, autor = Some (ascii ''ana'')\<rparr>,
                        \<lparr>texto = Some (ascii ''Gu'' @ [0xED] @ ascii ''a''),
                         url = Some (ascii ''http://a.b/c''), autor = Some (ascii ''ana'')\<rparr>,
                        \<lparr>texto = Some (ascii ''Otro''),
                         url = Some (ascii ''https://example.com/y''),
                         autor = Some (ascii ''ana'')\<rparr>]\<rparr>),
        (Diseno, \<lparr>message_id = Null, links = None\<rparr>)]\<rparr>"

definition stocked_with_id :: "int \<Rightarrow> document" where
  "stocked_with_id mid =
     stocked_doc\<lparr>categorias :=
       [(ascii ''Videos'', snd (hd (categorias stocked_doc))),
        (Diseno, \<lparr>message_id = Num mid, links = None\<rparr>)]\<rparr>"

section \<open>Growth of the document\<close>

text \<open>
  What may change in a category and in the document between two states of the file: a
  \<^verbatim>\<open>message_id\<close> that is set (a number other than 0, the test of the code) stays as it
  is, and a stored \<^verbatim>\<open>links\<close> list stays stored and is a prefix of the new one, entry by
  entry; the same for \<^verbatim>\<open>indice_message_id\<close>, and the categories keep their keys and
  their order.
\<close>

definition category_grows :: "category \<Rightarrow> category \<Rightarrow> bool" where
  "category_grows c c' \<longleftrightarrow>
     (msg_id_set (message_id c) \<longrightarrow> message_id c' = message_id c) \<and>
     (case links c of
        None \<Rightarrow> True
      | Some ls \<Rightarrow> (case links c' of None \<Rightarrow> False | Some ls' \<Rightarrow> prefix ls ls'))"

definition document_grows :: "document \<Rightarrow> document \<Rightarrow> bool" where
  "document_grows d d' \<longleftrightarrow>
     (int_set (indice_message_id d) \<longrightarrow> indice_message_id d' = indice_message_id d) \<and>
     list_all2 (\<lambda>(k, c) (k', c'). k' = k \<and> category_grows c c') (categorias d) (categorias d')"

section \<open>Properties of the parser\<close>

lemmas str_defs =
  ascii_def isspace_def py_strip_def py_split_def startswith_def nonspace_run_def
  after_scheme_def url_pattern_match_def

lemma split_ws_tokens:
  "list_all (\<lambda>c. \<not> isspace c) cur \<Longrightarrow>
   list_all (\<lambda>t. t \<noteq> [] \<and> list_all (\<lambda>c. \<not> isspace c) t) (split_ws cur s)"
  by (induction s arbitrary: cur) simp_all

lemma split_ws_concat:
  "concat (split_ws cur s) = cur @ filter (\<lambda>c. \<not> isspace c) s"
  by (induction cur s rule: split_ws.induct) auto

lemma filter_dropWhile_space:
  "filter (\<lambda>c. \<not> isspace c) (dropWhile isspace s) = filter (\<lambda>c. \<not> isspace c) s"
  by (induction s) auto

lemma filter_py_strip:
  "filter (\<lambda>c. \<not> isspace c) (py_strip s) = filter (\<lambda>c. \<not> isspace c) s"
proof -
  have "filter (\<lambda>c. \<not> isspace c) (py_strip s)
        = rev (filter (\<lambda>c. \<not> isspace c) (dropWhile isspace (rev (dropWhile isspace s))))"
    by (simp add: py_strip_def rev_filter)
  also have "\<dots> = rev (filter (\<lambda>c. \<not> isspace c) (rev (dropWhile isspace s)))"
    by (simp only: filter_dropWhile_space)
  also have "\<dots> = filter (\<lambda>c. \<not> isspace c) s"
    by (simp add: rev_filter [symmetric] filter_dropWhile_space)
  finally show ?thesis .
qed

lemma split_ws_nonspace:
  "\<forall>c\<in>set u. \<not> isspace c \<Longrightarrow> split_ws cur u = (if cur @ u = [] then [] else [cur @ u])"
  by (induction u arbitrary: cur) auto

lemma find_url_idx_None:
  "\<forall>i<n. \<not> url_pattern_match (parts ! i) \<Longrightarrow> find_url_idx parts n = None"
  by (induction n) auto

lemma find_url_idx_last:
  "url_pattern_match u \<Longrightarrow> \<forall>t\<in>set post. \<not> url_pattern_match t \<Longrightarrow> n \<le> length post \<Longrightarrow>
   find_url_idx (pre @ u # post) (Suc (length pre) + n) = Some (length pre)"
proof (induction n)
  case 0
  then show ?case by simp
next
  case (Suc n)
  then have "n < length post" by simp
  then have "(pre @ u # post) ! (Suc (length pre) + n) = post ! n"
    by (simp add: nth_append)
  moreover have "\<not> url_pattern_match (post ! n)"
    using Suc.prems(2) \<open>n < length post\<close> by simp
  ultimately show ?case using Suc by simp
qed

lemma title_between:
  "(if length pre > 1 then py_join sep (take (length pre - 1) (drop 1 (pre @ u # post))) else [])
   = py_join sep (tl pre)"
  by (cases pre; cases "tl pre") auto

lemma parse_add_args_parts:
  assumes "parts = (case py_split (py_strip text) of
                      [] \<Rightarrow> []
                    | t # ts \<Rightarrow> if startswith t (ascii ''/add'') then ts else t # ts)"
  shows "parse_add_args text =
     (if parts = [] then (None, None, None)
      else case find_url_idx parts (length parts) of
             None \<Rightarrow> (None, None, None)
           | Some url_idx \<Rightarrow>
               (Some (hd parts),
                Some (if url_idx > 1 then py_join [32] (take (url_idx - 1) (drop 1 parts))
                      else []),
                Some (parts ! url_idx)))"
proof -
  have "(if py_split (py_strip text) \<noteq> [] \<and>
            startswith (hd (py_split (py_strip text))) (ascii ''/add'')
         then tl (py_split (py_strip text)) else py_split (py_strip text)) = parts"
    unfolding assms by (cases "py_split (py_strip text)") simp_all
  then show ?thesis
    by (simp only: parse_add_args_def Let_def)
qed

lemma parse_no_url:
  assumes "parts = (case py_split (py_strip text) of
                      [] \<Rightarrow> []
                    | t # ts \<Rightarrow> if startswith t (ascii ''/add'') then ts else t # ts)"
    and "\<forall>t\<in>set parts. \<not> url_pattern_match t"
  shows "parse_add_args text = (None, None, None)"
proof -
  have "find_url_idx parts (length parts) = None"
    using assms(2) by (intro find_url_idx_None) simp
  then show ?thesis by (simp add: parse_add_args_parts [OF assms(1)])
qed

lemma parse_last_url:
  assumes "(case py_split (py_strip text) of
              [] \<Rightarrow> []
            | t # ts \<Rightarrow> if startswith t (ascii ''/add'') then ts else t # ts) = pre @ u # post"
    and "url_pattern_match u" and "\<forall>t\<in>set post. \<not> url_pattern_match t"
  shows "parse_add_args text = (Some (hd (pre @ [u])), Some (py_join [32] (tl pre)), Some u)"
proof -
  let ?p = "pre @ u # post"
  have idx: "find_url_idx ?p (length ?p) = Some (length pre)"
    using find_url_idx_last [OF assms(2,3), of "length post" pre] by simp
  have ne: "?p \<noteq> []" by simp
  have nth: "?p ! length pre = u" by simp
  have hd: "hd ?p = hd (pre @ [u])" by (cases pre) simp_all
  have "parse_add_args text =
          (Some (hd ?p),
           Some (if length pre > 1 then py_join [32] (take (length pre - 1) (drop 1 ?p)) else []),
           Some (?p ! length pre))"
    unfolding parse_add_args_parts [OF assms(1) [symmetric]]
    by (simp only: idx ne if_False option.case)
  then show ?thesis by (simp only: title_between hd nth)
qed

text \<open>
  Claim C1. Let \<open>parts\<close> be the whitespace-separated tokens of the text (each a
  non-empty run of non-whitespace, together all the non-whitespace of the text) without
  the first one when that starts with \<^verbatim>\<open>/add\<close>. If no token is left, or none matches
  \<^verbatim>\<open>^https?://\S+$\<close>, \<open>parse_add_args\<close> returns the triple of \<open>None\<close>. Otherwise the
  url is the last matching token, the category is the first token of \<open>parts\<close> and the
  title is the join with one space of the tokens strictly between the two, empty when
  there is none. The two examples of the specification evaluate as it says.
\<close>

theorem parse_add_args_spec:
  assumes "parts = (case py_split (py_strip text) of
                      [] \<Rightarrow> []
                    | t # ts \<Rightarrow> if startswith t (ascii ''/add'') then ts else t # ts)"
  shows "list_all (\<lambda>t. t \<noteq> [] \<and> list_all (\<lambda>c. \<not> isspace c) t) (py_split (py_strip text)) \<and>
         concat (py_split (py_strip text)) = filter (\<lambda>c. \<not> isspace c) text \<and>
         (parts = [] \<or> (\<forall>t\<in>set parts. \<not> url_pattern_match t) \<longrightarrow>
            parse_add_args text = (None, None, None)) \<and>
         (\<forall>pre u post.
            parts = pre @ u # post \<and> url_pattern_match u \<and>
            (\<forall>t\<in>set post. \<not> url_pattern_match t) \<longrightarrow>
            parse_add_args text = (Some (hd parts), Some (py_join [32] (tl pre)), Some u)) \<and>
         parse_add_args add_titled_example =
           (Some Diseno, Some (ascii ''Mi t'' @ [0xED] @ ascii ''tulo''), Some example_url) \<and>
         parse_add_args add_no_url_example = (None, None, None)"
proof (intro conjI allI impI)
  show "list_all (\<lambda>t. t \<noteq> [] \<and> list_all (\<lambda>c. \<not> isspace c) t) (py_split (py_strip text))"
    unfolding py_split_def by (rule split_ws_tokens) simp
  show "concat (py_split (py_strip text)) = filter (\<lambda>c. \<not> isspace c) text"
    by (simp add: py_split_def split_ws_concat filter_py_strip)
next
  assume "parts = [] \<or> (\<forall>t\<in>set parts. \<not> url_pattern_match t)"
  then have "\<forall>t\<in>set parts. \<not> url_pattern_match t" by auto
  then show "parse_add_args text = (None, None, None)"
    by (rule parse_no_url [OF assms])
next
  fix pre u post
  assume h: "parts = pre @ u # post \<and> url_pattern_match u \<and>
             (\<forall>t\<in>set post. \<not> url_pattern_match t)"
  then have p: "parts = pre @ u # post" and u: "url_pattern_match u"
    and post: "\<forall>t\<in>set post. \<not> url_pattern_match t"
    by blast+
  have "hd parts = hd (pre @ [u])" unfolding p by (cases pre) simp_all
  moreover have "parse_add_args text =
                   (Some (hd (pre @ [u])), Some (py_join [32] (tl pre)), Some u)"
    using assms [symmetric, unfolded p] u post by (rule parse_last_url)
  ultimately show "parse_add_args text =
                     (Some (hd parts), Some (py_join [32] (tl pre)), Some u)"
    by simp
next
  show "parse_add_args add_titled_example =
          (Some Diseno, Some (ascii ''Mi t'' @ [0xED] @ ascii ''tulo''), Some example_url)"
    by (simp add: str_defs parse_add_args_def add_titled_example_def Diseno_def example_url_def)
  show "parse_add_args add_no_url_example = (None, None, None)"
    by (simp add: str_defs parse_add_args_def add_no_url_example_def)
qed

theorem parse_add_args_spec_witness:
  "url_pattern_match example_url \<and>
   parse_add_args add_titled_example =
     (Some Diseno, Some (py_join [32] [ascii ''Mi'', ascii ''t'' @ [0xED] @ ascii ''tulo'']),
      Some example_url) \<and>
   list_all (\<lambda>t. \<not> url_pattern_match t) [Diseno, ascii ''sin-url-aqu'' @ [0xED]] \<and>
   parse_add_args add_no_url_example = (None, None, None)"
proof -
  let ?p1 = "[Diseno, ascii ''Mi'', ascii ''t'' @ [0xED] @ ascii ''tulo'', example_url]"
  let ?p2 = "[Diseno, ascii ''sin-url-aqu'' @ [0xED]]"
  have p1: "?p1 = (case py_split (py_strip add_titled_example) of
                     [] \<Rightarrow> []
                   | t # ts \<Rightarrow> if startswith t (ascii ''/add'') then ts else t # ts)"
    by (simp add: str_defs add_titled_example_def Diseno_def example_url_def)
  have p2: "?p2 = (case py_split (py_strip add_no_url_example) of
                     [] \<Rightarrow> []
                   | t # ts \<Rightarrow> if startswith t (ascii ''/add'') then ts else t # ts)"
    by (simp add: str_defs add_no_url_example_def Diseno_def)
  have u: "url_pattern_match example_url"
    by (simp add: str_defs example_url_def)
  have n2: "\<forall>t\<in>set ?p2. \<not> url_pattern_match t"
    by (simp add: str_defs Diseno_def)
  have "parse_add_args add_titled_example =
          (Some (hd ?p1),
           Some (py_join [32] (tl [Diseno, ascii ''Mi'', ascii ''t'' @ [0xED] @ ascii ''tulo''])),
           Some example_url)"
    using parse_add_args_spec [OF p1, THEN conjunct2, THEN conjunct2, THEN conjunct2, THEN conjunct1,
        rule_format, of "[Diseno, ascii ''Mi'', ascii ''t'' @ [0xED] @ ascii ''tulo'']" example_url "[]"] u
    by simp
  then have a: "parse_add_args add_titled_example =
     (Some Diseno, Some (py_join [32] [ascii ''Mi'', ascii ''t'' @ [0xED] @ ascii ''tulo'']),
      Some example_url)"
    by (simp only: list.sel)
  have b: "parse_add_args add_no_url_example = (None, None, None)"
    by (rule parse_add_args_spec [OF p2, THEN conjunct2, THEN conjunct2, THEN conjunct1,
          rule_format]) (rule disjI2, rule n2)
  have n2': "list_all (\<lambda>t. \<not> url_pattern_match t) [Diseno, ascii ''sin-url-aqu'' @ [0xED]]"
    using n2 by (simp only: list_all_iff)
  show ?thesis using u a n2' b by (intro conjI)
qed

section \<open>Properties of the rendering\<close>


lemma py_join_Cons: "py_join sep (x # xs) = x @ concat (map (\<lambda>l. sep @ l) xs)"
  by (induction xs arbitrary: x) simp_all

lemma index_lines_closed:
  "index_lines data cats lines =
     lines @ map (\<lambda>(cat, info).
       [0x2022, 32] @ ascii ''<b>'' @ cat @ ascii ''</b> ('' @
       str_int (int (length (get_links info))) @ ascii '')'' @
       (if truthy (channel_username data) \<and> msg_id_set (message_id info)
        then [32, 0x2014, 32] @ ascii ''<a href='' @ [34] @ ascii ''https://t.me/'' @
             dropWhile (\<lambda>c. c = 64) (fmt (channel_username data)) @ ascii ''/'' @
             (case message_id info of Num n \<Rightarrow> str_int n | _ \<Rightarrow> ascii ''None'') @
             [34] @ ascii ''>ir</a>''
        else [])) cats"
  by (induction cats arbitrary: lines) (simp_all add: Let_def split: prod.splits)








section \<open>Properties of the handlers\<close>


lemmas io_defs = load_data_def save_data_def bot_call_def reply_text_def logger_def

lemmas ex_defs = videos_doc_def no_channel_doc_def keyless_doc_def world_of_def remote_ok_def
  remote_down_def update_of_def

text \<open>
  Claim C2. From a document with \<^verbatim>\<open>channel_username\<close> set, no \<^verbatim>\<open>indice_message_id\<close> and
  one category with an empty link list whose \<^verbatim>\<open>message_id\<close> is missing or null, and a
  channel that answers the two calls with the ids \<open>i1\<close> and \<open>i2\<close>,
  \<open>ensure_channel_messages\<close> makes exactly two calls, both \<^verbatim>\<open>send_message\<close>, the index
  first and the category second, and saves the document with \<open>i1\<close> as
  \<^verbatim>\<open>indice_message_id\<close> and \<open>i2\<close> as the category's \<^verbatim>\<open>message_id\<close>. With
  \<^verbatim>\<open>channel_username\<close> unset it makes no call, writes nothing, logs one warning and
  returns normally.
\<close>

theorem ensure_channel_messages_one_category:
  "(data_file w = Some data \<and> channel_username data = Some ch \<and> ch \<noteq> [] \<and>
    indice_message_id data = None \<and>
    categorias data = [(cat, \<lparr>message_id = m, links = Some []\<rparr>)] \<and> (m = Absent \<or> m = Null) \<and>
    r (ncalls w) = Returned i1 \<and> r (Suc (ncalls w)) = Returned i2 \<longrightarrow>
    ensure_channel_messages upper r w =
      (Inr (),
       w\<lparr>data_file :=
            Some (data\<lparr>indice_message_id := Some i1,
                       categorias := [(cat, \<lparr>message_id = Num i2, links = Some []\<rparr>)]\<rparr>),
          ncalls := ncalls w + 2,
          trace := trace w @
            [Call (SendMessage ch (format_index data) True) (Returned i1),
             Log Info (CreatedIndex i1),
             Call (SendMessage ch (format_category_message upper cat []) False) (Returned i2),
             Log Info (CreatedCategory cat i2),
             Save (data\<lparr>indice_message_id := Some i1,
                        categorias := [(cat, \<lparr>message_id = Num i2, links = Some []\<rparr>)]\<rparr>),
             Log Info DataUpdated]\<rparr>)) \<and>
   (data_file w = Some data \<and> \<not> truthy (channel_username data) \<longrightarrow>
    ensure_channel_messages upper r w =
      (Inr (), w\<lparr>trace := trace w @ [Log Warning ChannelNull]\<rparr>))"
proof (intro conjI impI)
  assume h: "data_file w = Some data \<and> \<not> truthy (channel_username data)"
  then show "ensure_channel_messages upper r w =
      (Inr (), w\<lparr>trace := trace w @ [Log Warning ChannelNull]\<rparr>)"
    by (simp add: ensure_channel_messages_def io_defs)
next
  assume h: "data_file w = Some data \<and> channel_username data = Some ch \<and> ch \<noteq> [] \<and>
    indice_message_id data = None \<and>
    categorias data = [(cat, \<lparr>message_id = m, links = Some []\<rparr>)] \<and> (m = Absent \<or> m = Null) \<and>
    r (ncalls w) = Returned i1 \<and> r (Suc (ncalls w)) = Returned i2"
  then have m: "\<not> msg_id_set m" by (auto simp: msg_id_set_def)
  show "ensure_channel_messages upper r w =
      (Inr (),
       w\<lparr>data_file :=
            Some (data\<lparr>indice_message_id := Some i1,
                       categorias := [(cat, \<lparr>message_id = Num i2, links = Some []\<rparr>)]\<rparr>),
          ncalls := ncalls w + 2,
          trace := trace w @
            [Call (SendMessage ch (format_index data) True) (Returned i1),
             Log Info (CreatedIndex i1),
             Call (SendMessage ch (format_category_message upper cat []) False) (Returned i2),
             Log Info (CreatedCategory cat i2),
             Save (data\<lparr>indice_message_id := Some i1,
                        categorias := [(cat, \<lparr>message_id = Num i2, links = Some []\<rparr>)]\<rparr>),
             Log Info DataUpdated]\<rparr>)"
    using h m
    by (simp add: ensure_channel_messages_def io_defs truthy_def int_set_def fmt_def
        get_links_def set_message_id_def)
qed




theorem ensure_channel_messages_one_category_witness:
  "ensure_channel_messages latin1_upper remote_ok (world_of videos_doc) =
     (Inr (),
      \<lparr>data_file =
         Some (videos_doc\<lparr>indice_message_id := Some 100,
                 categorias := [(ascii ''Videos'', \<lparr>message_id = Num 101, links = Some []\<rparr>)]\<rparr>),
       ncalls = 2,
       trace =
         [Call (SendMessage (ascii ''@canal'') (format_index videos_doc) True) (Returned 100),
          Log Info (CreatedIndex 100),
          Call (SendMessage (ascii ''@canal'')
                  (format_category_message latin1_upper (ascii ''Videos'') []) False)
            (Returned 101),
          Log Info (CreatedCategory (ascii ''Videos'') 101),
          Save (videos_doc\<lparr>indice_message_id := Some 100,
                  categorias := [(ascii ''Videos'', \<lparr>message_id = Num 101, links = Some []\<rparr>)]\<rparr>),
          Log Info DataUpdated]\<rparr>) \<and>
   ensure_channel_messages latin1_upper remote_ok (world_of no_channel_doc) =
     (Inr (), \<lparr>data_file = Some no_channel_doc, ncalls = 0, trace = [Log Warning ChannelNull]\<rparr>)"
proof -
  have a: "data_file (world_of videos_doc) = Some videos_doc \<and>
        channel_username videos_doc = Some (ascii ''@canal'') \<and> ascii ''@canal'' \<noteq> [] \<and>
        indice_message_id videos_doc = None \<and>
        categorias videos_doc = [(ascii ''Videos'', \<lparr>message_id = Null, links = Some []\<rparr>)] \<and>
        (Null = Absent \<or> Null = Null) \<and>
        remote_ok (ncalls (world_of videos_doc)) = Returned 100 \<and>
        remote_ok (Suc (ncalls (world_of videos_doc))) = Returned 101"
    by (simp add: ex_defs ascii_def)
  have b: "data_file (world_of no_channel_doc) = Some no_channel_doc \<and>
        \<not> truthy (channel_username no_channel_doc)"
    by (simp add: ex_defs truthy_def)
  show ?thesis
    using ensure_channel_messages_one_category
            [of "world_of videos_doc" videos_doc "ascii ''@canal''" "ascii ''Videos''" Null
                remote_ok 100 101 latin1_upper, THEN conjunct1, rule_format, OF a]
          ensure_channel_messages_one_category
            [of "world_of no_channel_doc" no_channel_doc _ _ _ remote_ok _ _ latin1_upper,
             THEN conjunct2, rule_format, OF b]
    by (simp add: world_of_def)
qed

lemma find_url_idx_Some:
  "find_url_idx parts n = Some i \<Longrightarrow> i < n \<and> url_pattern_match (parts ! i)"
  by (induction n) (auto split: if_splits)

lemma parse_some_nonempty:
  assumes "parse_add_args text = (Some c, t, Some u)"
  shows "c \<noteq> [] \<and> u \<noteq> []"
proof -
  define toks where "toks = py_split (py_strip text)"
  define parts where "parts = (case toks of [] \<Rightarrow> []
                    | t # ts \<Rightarrow> if startswith t (ascii ''/add'') then ts else t # ts)"
  have ne: "list_all (\<lambda>t. t \<noteq> []) toks"
    using split_ws_tokens [of "[]" "py_strip text"]
    by (simp add: toks_def py_split_def list_all_iff)
  have sub: "set parts \<subseteq> set toks"
    by (cases toks) (auto simp: parts_def)
  have p: "parse_add_args text =
     (if parts = [] then (None, None, None)
      else case find_url_idx parts (length parts) of
             None \<Rightarrow> (None, None, None)
           | Some url_idx \<Rightarrow>
               (Some (hd parts),
                Some (if url_idx > 1 then py_join [32] (take (url_idx - 1) (drop 1 parts))
                      else []),
                Some (parts ! url_idx)))"
    by (rule parse_add_args_parts) (simp add: parts_def toks_def)
  from assms p have pne: "parts \<noteq> []" by (auto split: if_splits)
  with assms p obtain idx where idx: "find_url_idx parts (length parts) = Some idx"
    by (auto split: option.splits)
  with assms p pne have c: "c = hd parts" and u: "u = parts ! idx" by auto
  from idx have "idx < length parts" using find_url_idx_Some by blast
  then have "u \<in> set parts" using u by simp
  moreover have "c \<in> set parts" using c pne by simp
  ultimately show ?thesis using sub ne by (auto simp: list_all_iff)
qed

lemma add_command_unmatched:
  assumes "parse_add_args (message_text upd) = (Some c, t, Some u)"
    and "data_file w = Some data"
    and "category_matches lower data c = []"
  shows "add_command lower upper r upd w = (Inr (), reply_text (not_found_text c) w)"
  using assms parse_some_nonempty [OF assms(1)]
  by (simp add: add_command_def truthy_def load_data_def fmt_def)

lemma add_command_matched:
  assumes "parse_add_args (message_text upd) = (Some c, t, Some u)"
    and "data_file w = Some data"
    and "category_matches lower data c = k # ks"
  shows "add_command lower upper r upd w =
     (let entry = \<lparr>texto = py_or t (Some u), url = Some u,
                   autor = py_or (user_username upd) (Some (user_full_name upd))\<rparr>;
          data1 = append_link k entry data;
          w1 = save_data data1 w
      in if truthy (channel_username data)
         then (case add_update_channel upper r data1 k w1 of
                 (Inl e, w2) \<Rightarrow> (Inl e, w2)
               | (Inr _, w2) \<Rightarrow> (Inr (), reply_text (added_text k) w2))
         else (Inr (), reply_text (added_text k) w1))"
  using assms parse_some_nonempty [OF assms(1)]
  by (simp add: add_command_def truthy_def load_data_def fmt_def Let_def append_link_def)

lemma category_matches_key:
  "category_matches lower data c = k # ks \<Longrightarrow> k \<in> fst ` set (categorias data)"
proof -
  assume "category_matches lower data c = k # ks"
  then have "k \<in> set (filter (\<lambda>x. lower x = lower c) (map fst (categorias data)))"
    by (simp add: category_matches_def)
  then show ?thesis by auto
qed

lemma map_of_append_link:
  "map_of (categorias data) k = Some info \<Longrightarrow>
   map_of (categorias (append_link k entry data)) k =
     Some (info\<lparr>links := Some (get_links info @ [entry])\<rparr>)"
  by (simp add: append_link_def map_of_map_entry)

lemma add_update_channel_absent:
  "map_of (categorias data) k = Some info \<Longrightarrow> message_id info = Absent \<Longrightarrow>
   add_update_channel upper r data k w = (Inl (KeyError (ascii ''message_id'')), w)"
  by (simp add: add_update_channel_def)

lemma add_update_channel_present:
  assumes "map_of (categorias data) k = Some info" "message_id info \<noteq> Absent"
    "links info = Some lks"
  shows "add_update_channel upper r data k w =
     (Inr (),
      w\<lparr>ncalls := ncalls w + (if int_set (indice_message_id data) then 2 else 1),
        trace := trace w @
          [Call (EditMessageText (fmt (channel_username data))
                   (case message_id info of Num n \<Rightarrow> Some n | _ \<Rightarrow> None)
                   (format_category_message upper k lks) False) (r (ncalls w))] @
          (case r (ncalls w) of Raised \<Rightarrow> [Log Error FailedEditCategory] | Returned _ \<Rightarrow> []) @
          (if int_set (indice_message_id data)
           then [Call (EditMessageText (fmt (channel_username data)) (indice_message_id data)
                         (format_index data) True) (r (Suc (ncalls w)))] @
                (case r (Suc (ncalls w)) of Raised \<Rightarrow> [Log Error FailedEditIndex]
                 | Returned _ \<Rightarrow> [])
           else [])\<rparr>)"
  using assms
  by (cases "message_id info"; cases "r (ncalls w)"; cases "r (Suc (ncalls w))")
     (simp_all add: add_update_channel_def io_defs Let_def)

lemma add_update_channel_file:
  "data_file (snd (add_update_channel upper r data k w)) = data_file w"
  by (simp add: add_update_channel_def io_defs Let_def
      split: option.splits msg_id.splits response.splits prod.splits)


text \<open>
  Claim C7. When \<open>parse_add_args\<close> succeeds on the text of /add and no key of
  \<^verbatim>\<open>categorias\<close> has the lower-cased form of the category that was given, the handler
  only replies, with a message that quotes that category, and returns normally: the
  file is not written and the channel is not called, so the world differs from the one
  before by that reply alone.
\<close>

theorem add_command_unknown_category:
  "parse_add_args (message_text upd) = (Some c, Some t, Some u) \<and>
   data_file w = Some data \<and>
   (\<forall>k\<in>set (map fst (categorias data)). lower k \<noteq> lower c) \<longrightarrow>
   add_command lower upper r upd w =
     (Inr (),
      w\<lparr>trace := trace w @
           [Reply (ascii ''Categor'' @ [0xED] @ ascii ''a '' @ [39] @ c @ [39] @
                   ascii '' no encontrada. Usa /list para ver categor'' @ [0xED] @
                   ascii ''as disponibles.'')]\<rparr>)"
proof
  assume h: "parse_add_args (message_text upd) = (Some c, Some t, Some u) \<and>
   data_file w = Some data \<and>
   (\<forall>k\<in>set (map fst (categorias data)). lower k \<noteq> lower c)"
  then have "category_matches lower data c = []"
    by (auto simp: category_matches_def filter_empty_conv)
  with h have "add_command lower upper r upd w = (Inr (), reply_text (not_found_text c) w)"
    by (intro add_command_unmatched) auto
  then show "add_command lower upper r upd w =
     (Inr (),
      w\<lparr>trace := trace w @
           [Reply (ascii ''Categor'' @ [0xED] @ ascii ''a '' @ [39] @ c @ [39] @
                   ascii '' no encontrada. Usa /list para ver categor'' @ [0xED] @
                   ascii ''as disponibles.'')]\<rparr>)"
    by (simp add: reply_text_def not_found_text_def)
qed

theorem add_command_unknown_category_witness:
  "parse_add_args (message_text (update_of add_titled_example)) =
     (Some Diseno, Some (ascii ''Mi t'' @ [0xED] @ ascii ''tulo''), Some example_url) \<and>
   list_all (\<lambda>k. latin1_lower k \<noteq> latin1_lower Diseno) (map fst (categorias videos_doc)) \<and>
   add_command latin1_lower latin1_upper remote_ok (update_of add_titled_example)
       (world_of videos_doc) =
     (Inr (),
      \<lparr>data_file = Some videos_doc, ncalls = 0,
       trace = [Reply (ascii ''Categor'' @ [0xED] @ ascii ''a '' @ [39] @ Diseno @ [39] @
                       ascii '' no encontrada. Usa /list para ver categor'' @ [0xED] @
                       ascii ''as disponibles.'')]\<rparr>)"
proof -
  have p: "parse_add_args (message_text (update_of add_titled_example)) =
     (Some Diseno, Some (ascii ''Mi t'' @ [0xED] @ ascii ''tulo''), Some example_url)"
    by (simp add: str_defs parse_add_args_def add_titled_example_def Diseno_def example_url_def
        update_of_def)
  have n: "list_all (\<lambda>k. latin1_lower k \<noteq> latin1_lower Diseno) (map fst (categorias videos_doc))"
    by (simp add: videos_doc_def latin1_lower_def Diseno_def ascii_def)
  have f: "data_file (world_of videos_doc) = Some videos_doc" by (simp add: world_of_def)
  have "add_command latin1_lower latin1_upper remote_ok (update_of add_titled_example)
       (world_of videos_doc) =
     (Inr (),
      (world_of videos_doc)\<lparr>trace := trace (world_of videos_doc) @
           [Reply (ascii ''Categor'' @ [0xED] @ ascii ''a '' @ [39] @ Diseno @ [39] @
                   ascii '' no encontrada. Usa /list para ver categor'' @ [0xED] @
                   ascii ''as disponibles.'')]\<rparr>)"
    using p f n
    by (intro add_command_unknown_category [rule_format]) (simp add: list_all_iff)
  then show ?thesis using p n by (simp add: world_of_def)
qed

text \<open>
  /add on a matched category whose record has a \<^verbatim>\<open>message_id\<close> key, with
  \<^verbatim>\<open>channel_username\<close> set, for any behaviour of the channel: the document is saved
  first, then the category message is edited, then the index message when there is an
  \<^verbatim>\<open>indice_message_id\<close>; a failed edit adds its own log record and nothing else, and
  the reply comes last.
\<close>

lemma add_command_edits_caught:
  assumes "parse_add_args (message_text upd) = (Some c, Some t, Some u)"
    and "data_file w = Some data" and "truthy (channel_username data)"
    and "category_matches lower data c = k # ks"
    and "map_of (categorias data) k = Some info" and "message_id info \<noteq> Absent"
  shows "add_command lower upper r upd w =
     (let entry = \<lparr>texto = py_or (Some t) (Some u), url = Some u,
                   autor = py_or (user_username upd) (Some (user_full_name upd))\<rparr>;
          data1 = append_link k entry data
      in (Inr (),
          w\<lparr>data_file := Some data1,
            ncalls := ncalls w + (if int_set (indice_message_id data) then 2 else 1),
            trace := trace w @
              [Save data1,
               Call (EditMessageText (fmt (channel_username data))
                       (case message_id info of Num n \<Rightarrow> Some n | _ \<Rightarrow> None)
                       (format_category_message upper k (get_links info @ [entry])) False)
                 (r (ncalls w))] @
              (case r (ncalls w) of Raised \<Rightarrow> [Log Error FailedEditCategory]
               | Returned _ \<Rightarrow> []) @
              (if int_set (indice_message_id data)
               then [Call (EditMessageText (fmt (channel_username data)) (indice_message_id data)
                             (format_index data1) True) (r (Suc (ncalls w)))] @
                    (case r (Suc (ncalls w)) of Raised \<Rightarrow> [Log Error FailedEditIndex]
                     | Returned _ \<Rightarrow> [])
               else []) @
              [Reply (added_text k)]\<rparr>))"
proof -
  define entry where "entry = \<lparr>texto = py_or (Some t) (Some u), url = Some u,
                   autor = py_or (user_username upd) (Some (user_full_name upd))\<rparr>"
  define data1 where "data1 = append_link k entry data"
  define info1 where "info1 = info\<lparr>links := Some (get_links info @ [entry])\<rparr>"
  have m: "map_of (categorias data1) k = Some info1"
    unfolding data1_def info1_def by (rule map_of_append_link [OF assms(5)])
  have i1: "message_id info1 \<noteq> Absent" "links info1 = Some (get_links info @ [entry])"
    "message_id info1 = message_id info"
    using assms(6) by (simp_all add: info1_def)
  have d1: "channel_username data1 = channel_username data"
    "indice_message_id data1 = indice_message_id data"
    by (simp_all add: data1_def append_link_def)
  show ?thesis
    unfolding add_command_matched [OF assms(1,2,4)]
    using assms(3)
    by (simp add: Let_def entry_def [symmetric] data1_def [symmetric]
        add_update_channel_present [OF m i1(1,2)] i1(3) d1 save_data_def reply_text_def)
qed

text \<open>A run of the lemma above where both edits fail: two log records, and the reply is still sent.\<close>

lemma add_command_edits_fail_example:
  "add_command latin1_lower latin1_upper remote_down
       (update_of (ascii ''/add Videos https://example.com/x'')) (world_of published_doc) =
     (Inr (),
      \<lparr>data_file = Some published_saved, ncalls = 2,
       trace =
         [Save published_saved,
          Call (EditMessageText (ascii ''@canal'') (Some 7)
                  (format_category_message latin1_upper (ascii ''Videos'')
                     [\<lparr>texto = Some example_url, url = Some example_url,
                       autor = Some (ascii ''ana'')\<rparr>]) False) Raised,
          Log Error FailedEditCategory,
          Call (EditMessageText (ascii ''@canal'') (Some 5) (format_index published_saved) True)
            Raised,
          Log Error FailedEditIndex,
          Reply (added_text (ascii ''Videos''))]\<rparr>)"
proof -
  let ?upd = "update_of (ascii ''/add Videos https://example.com/x'')"
  let ?e = "\<lparr>texto = Some example_url, url = Some example_url, autor = Some (ascii ''ana'')\<rparr>"
  have p: "parse_add_args (message_text ?upd) = (Some (ascii ''Videos''), Some [], Some example_url)"
    by (simp add: str_defs parse_add_args_def example_url_def update_of_def)
  have f: "data_file (world_of published_doc) = Some published_doc" by (simp add: world_of_def)
  have c: "truthy (channel_username published_doc)"
    by (simp add: published_doc_def truthy_def ascii_def)
  have k: "category_matches latin1_lower published_doc (ascii ''Videos'') = [ascii ''Videos'']"
    by (simp add: category_matches_def published_doc_def)
  have i: "map_of (categorias published_doc) (ascii ''Videos'') =
             Some \<lparr>message_id = Num 7, links = Some []\<rparr>"
    by (simp add: published_doc_def)
  have n: "message_id \<lparr>message_id = Num 7, links = Some []\<rparr> \<noteq> Absent" by simp
  have e: "\<lparr>texto = py_or (Some []) (Some example_url), url = Some example_url,
            autor = py_or (user_username ?upd) (Some (user_full_name ?upd))\<rparr> = ?e"
    by (simp add: py_or_def truthy_def update_of_def ascii_def example_url_def)
  have s: "append_link (ascii ''Videos'') ?e published_doc = published_saved"
    by (simp add: append_link_def published_doc_def published_saved_def get_links_def)
  show ?thesis
    unfolding add_command_edits_caught [OF p f c k i n] Let_def e s
    by (simp add: world_of_def remote_down_def published_doc_def int_set_def fmt_def
        get_links_def)
qed

text \<open>
  Claim C10. In /add with \<^verbatim>\<open>channel_username\<close> set, when the record of the matched
  category has no \<^verbatim>\<open>message_id\<close> key, the handler ends with \<^verbatim>\<open>KeyError\<close> on
  \<^verbatim>\<open>message_id\<close>: the document with the link appended to that category has been saved
  and that write is the only effect, so no edit is called and no reply is sent.
\<close>

theorem add_command_missing_message_id:
  "parse_add_args (message_text upd) = (Some c, Some t, Some u) \<and>
   data_file w = Some data \<and> truthy (channel_username data) \<and>
   category_matches lower data c = k # ks \<and>
   map_of (categorias data) k = Some info \<and> message_id info = Absent \<longrightarrow>
   (let entry = \<lparr>texto = py_or (Some t) (Some u), url = Some u,
                  autor = py_or (user_username upd) (Some (user_full_name upd))\<rparr>;
        data1 = append_link k entry data
    in add_command lower upper r upd w =
         (Inl (KeyError (ascii ''message_id'')),
          w\<lparr>data_file := Some data1, trace := trace w @ [Save data1]\<rparr>) \<and>
       map_of (categorias data1) k = Some (info\<lparr>links := Some (get_links info @ [entry])\<rparr>))"
proof
  assume h: "parse_add_args (message_text upd) = (Some c, Some t, Some u) \<and>
   data_file w = Some data \<and> truthy (channel_username data) \<and>
   category_matches lower data c = k # ks \<and>
   map_of (categorias data) k = Some info \<and> message_id info = Absent"
  define entry where "entry = \<lparr>texto = py_or (Some t) (Some u), url = Some u,
                   autor = py_or (user_username upd) (Some (user_full_name upd))\<rparr>"
  define data1 where "data1 = append_link k entry data"
  define info1 where "info1 = info\<lparr>links := Some (get_links info @ [entry])\<rparr>"
  have m: "map_of (categorias data1) k = Some info1"
    unfolding data1_def info1_def using h by (intro map_of_append_link) simp
  have a: "message_id info1 = Absent" using h by (simp add: info1_def)
  have "add_command lower upper r upd w =
         (Inl (KeyError (ascii ''message_id'')),
          w\<lparr>data_file := Some data1, trace := trace w @ [Save data1]\<rparr>)"
    using h add_command_matched [of upd c "Some t" u w data lower k ks upper r]
    by (simp add: Let_def entry_def [symmetric] data1_def [symmetric]
        add_update_channel_absent [OF m a] save_data_def)
  then show "let entry = \<lparr>texto = py_or (Some t) (Some u), url = Some u,
                  autor = py_or (user_username upd) (Some (user_full_name upd))\<rparr>;
        data1 = append_link k entry data
    in add_command lower upper r upd w =
         (Inl (KeyError (ascii ''message_id'')),
          w\<lparr>data_file := Some data1, trace := trace w @ [Save data1]\<rparr>) \<and>
       map_of (categorias data1) k = Some (info\<lparr>links := Some (get_links info @ [entry])\<rparr>)"
    using m by (simp add: Let_def entry_def data1_def info1_def)
qed

theorem add_command_missing_message_id_witness:
  "parse_add_args (message_text (update_of (ascii ''/add videos https://example.com/x''))) =
     (Some (ascii ''videos''), Some [], Some example_url) \<and>
   truthy (channel_username keyless_doc) \<and>
   category_matches latin1_lower keyless_doc (ascii ''videos'') = [ascii ''Videos''] \<and>
   map_of (categorias keyless_doc) (ascii ''Videos'') =
     Some \<lparr>message_id = Absent, links = Some []\<rparr> \<and>
   add_command latin1_lower latin1_upper remote_ok
       (update_of (ascii ''/add videos https://example.com/x'')) (world_of keyless_doc) =
     (Inl (KeyError (ascii ''message_id'')),
      \<lparr>data_file = Some keyless_saved, ncalls = 0, trace = [Save keyless_saved]\<rparr>)"
proof -
  let ?upd = "update_of (ascii ''/add videos https://example.com/x'')"
  have p: "parse_add_args (message_text ?upd) =
     (Some (ascii ''videos''), Some [], Some example_url)"
    by (simp add: str_defs parse_add_args_def example_url_def update_of_def)
  have c: "truthy (channel_username keyless_doc)"
    by (simp add: keyless_doc_def truthy_def ascii_def)
  have k: "category_matches latin1_lower keyless_doc (ascii ''videos'') = [ascii ''Videos'']"
    by (simp add: category_matches_def keyless_doc_def latin1_lower_def ascii_def)
  have i: "map_of (categorias keyless_doc) (ascii ''Videos'') =
     Some \<lparr>message_id = Absent, links = Some []\<rparr>"
    by (simp add: keyless_doc_def)
  have f: "data_file (world_of keyless_doc) = Some keyless_doc" by (simp add: world_of_def)
  have s: "append_link (ascii ''Videos'')
             \<lparr>texto = py_or (Some []) (Some example_url), url = Some example_url,
               autor = py_or (user_username ?upd) (Some (user_full_name ?upd))\<rparr> keyless_doc
           = keyless_saved"
    by (simp add: append_link_def keyless_doc_def keyless_saved_def py_or_def truthy_def
        get_links_def update_of_def ascii_def example_url_def)
  have "add_command latin1_lower latin1_upper remote_ok ?upd (world_of keyless_doc) =
     (Inl (KeyError (ascii ''message_id'')),
      (world_of keyless_doc)\<lparr>data_file := Some keyless_saved,
         trace := trace (world_of keyless_doc) @ [Save keyless_saved]\<rparr>)"
    using add_command_missing_message_id
            [of ?upd "ascii ''videos''" "[]" example_url "world_of keyless_doc" keyless_doc
                latin1_lower "ascii ''Videos''" "[]" "\<lparr>message_id = Absent, links = Some []\<rparr>"
                latin1_upper remote_ok]
          p c k i f
    by (simp add: Let_def s)
  then show ?thesis using p c k i by (simp add: world_of_def)
qed

lemma add_command_saved:
  assumes "parse_add_args (message_text upd) = (Some c, t, Some u)"
    and "data_file w = Some data"
    and "category_matches lower data c = k # ks"
  shows "data_file (snd (add_command lower upper r upd w)) =
     Some (append_link k \<lparr>texto = py_or t (Some u), url = Some u,
                          autor = py_or (user_username upd) (Some (user_full_name upd))\<rparr> data)"
proof -
  define data1 where "data1 = append_link k \<lparr>texto = py_or t (Some u), url = Some u,
                          autor = py_or (user_username upd) (Some (user_full_name upd))\<rparr> data"
  obtain out w2 where res: "add_update_channel upper r data1 k (save_data data1 w) = (out, w2)"
    by fastforce
  have f: "data_file w2 = Some data1"
    using add_update_channel_file [of upper r data1 k "save_data data1 w"] res
    by (simp add: save_data_def)
  have "add_command lower upper r upd w =
          (if truthy (channel_username data)
           then (case (out, w2) of
                   (Inl e, w2) \<Rightarrow> (Inl e, w2)
                 | (Inr _, w2) \<Rightarrow> (Inr (), reply_text (added_text k) w2))
           else (Inr (), reply_text (added_text k) (save_data data1 w)))"
    using add_command_matched [OF assms, of upper r] res by (simp add: Let_def data1_def)
  then show ?thesis
    by (cases out) (simp_all add: f reply_text_def save_data_def data1_def [symmetric])
qed

text \<open>
  Claim C3 says that after /add has appended a link with \<^verbatim>\<open>channel_username\<close> set the
  user still receives the success reply. \<open>add_command_edits_caught\<close> above shows it
  for a category record that has a \<^verbatim>\<open>message_id\<close> key (null or a number): the save comes
  first, each failed edit adds one log record and the reply is sent. This run is the
  other case, a record without the key: the link is appended and saved, then
  \<^verbatim>\<open>data["categorias"][cat_key]["message_id"]\<close> raises, and the trace holds the save
  alone, with no reply.
\<close>

theorem add_command_key_error_example:
  "add_command latin1_lower latin1_upper remote_ok
       (update_of (ascii ''/add Videos https://example.com/x'')) (world_of keyless_doc) =
     (Inl (KeyError (ascii ''message_id'')),
      \<lparr>data_file = Some keyless_saved, ncalls = 0, trace = [Save keyless_saved]\<rparr>)"
  by (simp add: add_command_def add_update_channel_def parse_add_args_def str_defs
      category_matches_def append_link_def io_defs ex_defs keyless_saved_def latin1_lower_def
      truthy_def py_or_def fmt_def get_links_def example_url_def Let_def)

theorem add_command_key_error_example_witness:
  "fst (add_command latin1_lower latin1_upper remote_ok
          (update_of (ascii ''/add Videos https://example.com/x'')) (world_of keyless_doc)) =
     Inl (KeyError (ascii ''message_id'')) \<and>
   data_file (snd (add_command latin1_lower latin1_upper remote_ok
          (update_of (ascii ''/add Videos https://example.com/x'')) (world_of keyless_doc))) =
     Some keyless_saved \<and>
   list_all (\<lambda>e. case e of Reply _ \<Rightarrow> False | Call _ _ \<Rightarrow> False | _ \<Rightarrow> True)
     (trace (snd (add_command latin1_lower latin1_upper remote_ok
          (update_of (ascii ''/add Videos https://example.com/x'')) (world_of keyless_doc))))"
  by (simp add: add_command_key_error_example)

text \<open>
  Claim C9. When the text of /add splits into the command and one more token that
  matches the URL pattern, \<open>parse_add_args\<close> returns that token as category and as
  url, with the empty title, and not the triple of \<open>None\<close>. \<open>add_command\<close> then looks
  for a category named like the URL: with no such key it replies that the category,
  quoted as the URL, was not found; with such a key it saves the link under it.
  \<^verbatim>\<open>/add https://example.com/x\<close> is an instance.
\<close>

theorem parse_add_args_url_only:
  "(py_split (py_strip text) = [cmd, u] \<and> startswith cmd (ascii ''/add'') \<and>
    url_pattern_match u \<longrightarrow>
    parse_add_args text = (Some u, Some [], Some u) \<and>
    (message_text upd = text \<and> data_file w = Some data \<longrightarrow>
       (category_matches lower data u = [] \<longrightarrow>
          add_command lower upper r upd w =
            (Inr (),
             w\<lparr>trace := trace w @
                  [Reply (ascii ''Categor'' @ [0xED] @ ascii ''a '' @ [39] @ u @ [39] @
                          ascii '' no encontrada. Usa /list para ver categor'' @ [0xED] @
                          ascii ''as disponibles.'')]\<rparr>)) \<and>
       (\<forall>k ks. category_matches lower data u = k # ks \<longrightarrow>
          data_file (snd (add_command lower upper r upd w)) =
            Some (append_link k
                    \<lparr>texto = Some u, url = Some u,
                     autor = py_or (user_username upd) (Some (user_full_name upd))\<rparr> data)))) \<and>
   parse_add_args add_url_only_example = (Some example_url, Some [], Some example_url)"
proof (intro conjI impI allI)
  show "parse_add_args add_url_only_example = (Some example_url, Some [], Some example_url)"
    by (simp add: str_defs parse_add_args_def add_url_only_example_def example_url_def)
next
  assume h: "py_split (py_strip text) = [cmd, u] \<and> startswith cmd (ascii ''/add'') \<and>
    url_pattern_match u"
  then have "(case py_split (py_strip text) of
              [] \<Rightarrow> []
            | t # ts \<Rightarrow> if startswith t (ascii ''/add'') then ts else t # ts) = [] @ u # []"
    by simp
  from parse_last_url [OF this] h
  show p: "parse_add_args text = (Some u, Some [], Some u)" by simp
  {
    assume e: "message_text upd = text \<and> data_file w = Some data"
    {
      assume "category_matches lower data u = []"
      with p e have "add_command lower upper r upd w = (Inr (), reply_text (not_found_text u) w)"
        by (intro add_command_unmatched) auto
      then show "add_command lower upper r upd w =
            (Inr (),
             w\<lparr>trace := trace w @
                  [Reply (ascii ''Categor'' @ [0xED] @ ascii ''a '' @ [39] @ u @ [39] @
                          ascii '' no encontrada. Usa /list para ver categor'' @ [0xED] @
                          ascii ''as disponibles.'')]\<rparr>)"
        by (simp add: reply_text_def not_found_text_def)
    }
    fix k ks
    assume m: "category_matches lower data u = k # ks"
    have "u \<noteq> []" using parse_some_nonempty [OF p] by simp
    then have "py_or (Some []) (Some u) = Some u" by (simp add: py_or_def truthy_def)
    then show "data_file (snd (add_command lower upper r upd w)) =
            Some (append_link k
                    \<lparr>texto = Some u, url = Some u,
                     autor = py_or (user_username upd) (Some (user_full_name upd))\<rparr> data)"
      using add_command_saved [of upd u "Some []" u w data lower k ks upper r] p e m
      by simp
  }
qed

theorem parse_add_args_url_only_witness:
  "py_split (py_strip add_url_only_example) = [ascii ''/add'', example_url] \<and>
   startswith (ascii ''/add'') (ascii ''/add'') \<and> url_pattern_match example_url \<and>
   parse_add_args add_url_only_example = (Some example_url, Some [], Some example_url) \<and>
   category_matches latin1_lower videos_doc example_url = [] \<and>
   add_command latin1_lower latin1_upper remote_ok (update_of add_url_only_example)
       (world_of videos_doc) =
     (Inr (),
      \<lparr>data_file = Some videos_doc, ncalls = 0,
       trace = [Reply (ascii ''Categor'' @ [0xED] @ ascii ''a '' @ [39] @ example_url @ [39] @
                       ascii '' no encontrada. Usa /list para ver categor'' @ [0xED] @
                       ascii ''as disponibles.'')]\<rparr>) \<and>
   category_matches latin1_lower url_named_doc example_url = [example_url] \<and>
   data_file (snd (add_command latin1_lower latin1_upper remote_ok
                     (update_of add_url_only_example) (world_of url_named_doc))) =
     Some (url_named_doc\<lparr>categorias :=
             [(example_url,
               \<lparr>message_id = Null,
                links = Some [\<lparr>texto = Some example_url, url = Some example_url,
                               autor = Some (ascii ''ana'')\<rparr>]\<rparr>)]\<rparr>)"
proof -
  let ?upd = "update_of add_url_only_example"
  have s: "py_split (py_strip add_url_only_example) = [ascii ''/add'', example_url] \<and>
           startswith (ascii ''/add'') (ascii ''/add'') \<and> url_pattern_match example_url"
    by (simp add: str_defs add_url_only_example_def example_url_def)
  note T = parse_add_args_url_only [THEN conjunct1, rule_format, OF s]
  have p: "parse_add_args add_url_only_example = (Some example_url, Some [], Some example_url)"
    by (rule T [THEN conjunct1])
  have n: "category_matches latin1_lower videos_doc example_url = []"
    by (simp add: category_matches_def videos_doc_def latin1_lower_def example_url_def ascii_def)
  have y: "category_matches latin1_lower url_named_doc example_url = [example_url]"
    by (simp add: category_matches_def url_named_doc_def)
  have e1: "message_text ?upd = add_url_only_example \<and>
            data_file (world_of videos_doc) = Some videos_doc"
    by (simp add: update_of_def world_of_def)
  have e2: "message_text ?upd = add_url_only_example \<and>
            data_file (world_of url_named_doc) = Some url_named_doc"
    by (simp add: update_of_def world_of_def)
  have a: "add_command latin1_lower latin1_upper remote_ok ?upd (world_of videos_doc) =
     (Inr (),
      \<lparr>data_file = Some videos_doc, ncalls = 0,
       trace = [Reply (ascii ''Categor'' @ [0xED] @ ascii ''a '' @ [39] @ example_url @ [39] @
                       ascii '' no encontrada. Usa /list para ver categor'' @ [0xED] @
                       ascii ''as disponibles.'')]\<rparr>)"
    using T [THEN conjunct2, rule_format, OF e1, THEN conjunct1, rule_format, OF n,
             of latin1_upper remote_ok]
    by (simp add: world_of_def)
  have b: "data_file (snd (add_command latin1_lower latin1_upper remote_ok ?upd
                             (world_of url_named_doc))) =
     Some (url_named_doc\<lparr>categorias :=
             [(example_url,
               \<lparr>message_id = Null,
                links = Some [\<lparr>texto = Some example_url, url = Some example_url,
                               autor = Some (ascii ''ana'')\<rparr>]\<rparr>)]\<rparr>)"
    using T [THEN conjunct2, rule_format, OF e2, THEN conjunct2, rule_format, OF y,
             of latin1_upper remote_ok]
    by (simp add: append_link_def url_named_doc_def update_of_def py_or_def truthy_def
        get_links_def ascii_def)
  show ?thesis using s p n a y b by (intro conjI) simp_all
qed

text \<open>
  Claim C6 as stated fails for the header of the category message:
  \<open>format_category_message\<close> shows \<^verbatim>\<open>cat_name.upper()\<close>. For the stored key
  \<open>Diseno\<close> (written with n-tilde, code point 241) the rendered message does not
  contain the key in its stored casing anywhere; the header shows it upper-cased.
\<close>

theorem category_header_upper_cased:
  "\<not> sublist Diseno (format_category_message latin1_upper Diseno []) \<and>
   format_category_message latin1_upper Diseno [] =
     [0x1F4CE, 32] @ ascii ''<b>'' @ diseno_uppercase @ ascii ''</b> (0 enlaces)'' @ [10, 10] @
     ascii ''_No hay enlaces a'' @ [0xFA] @ ascii ''n. Agrega alguno con_ /add''"
proof -
  have e: "format_category_message latin1_upper Diseno [] =
     [0x1F4CE, 32] @ ascii ''<b>'' @ diseno_uppercase @ ascii ''</b> (0 enlaces)'' @ [10, 10] @
     ascii ''_No hay enlaces a'' @ [0xFA] @ ascii ''n. Agrega alguno con_ /add''"
    by (simp add: format_category_message_def latin1_upper_def Diseno_def diseno_uppercase_def
        ascii_def str_int_def digits.simps)
  have "\<not> sublist Diseno (format_category_message latin1_upper Diseno [])"
    unfolding e
    by (simp add: Diseno_def diseno_uppercase_def ascii_def sublist_code prefix_code)
  then show ?thesis using e by simp
qed

lemma category_matches_first:
  assumes "map fst (categorias data) = pre @ k # post" "lower k = lower name"
    "\<forall>k'\<in>set pre. lower k' \<noteq> lower name"
  shows "category_matches lower data name = k # filter (\<lambda>c. lower c = lower name) post"
proof -
  have "filter (\<lambda>c. lower c = lower name) pre = []"
    using assms(3) by (simp add: filter_empty_conv)
  then show ?thesis by (simp add: category_matches_def assms(1,2))
qed

lemma add_command_reply_last:
  assumes "parse_add_args (message_text upd) = (Some c, t, Some u)"
    and "data_file w = Some data"
    and "category_matches lower data c = k # ks"
    and "fst (add_command lower upper r upd w) = Inr ()"
  shows "last (trace (snd (add_command lower upper r upd w))) = Reply (added_text k)"
proof -
  define data1 where "data1 = append_link k \<lparr>texto = py_or t (Some u), url = Some u,
                          autor = py_or (user_username upd) (Some (user_full_name upd))\<rparr> data"
  obtain out w2 where res: "add_update_channel upper r data1 k (save_data data1 w) = (out, w2)"
    by fastforce
  have eq: "add_command lower upper r upd w =
          (if truthy (channel_username data)
           then (case (out, w2) of
                   (Inl e, w2) \<Rightarrow> (Inl e, w2)
                 | (Inr _, w2) \<Rightarrow> (Inr (), reply_text (added_text k) w2))
           else (Inr (), reply_text (added_text k) (save_data data1 w)))"
    using add_command_matched [OF assms(1-3), of upper r] res by (simp add: Let_def data1_def)
  show ?thesis
    using assms(4) unfolding eq
    by (cases out) (simp_all add: reply_text_def split: if_splits)
qed

lemma format_index_closed:
  "format_index data =
     index_header @
     concat (map (\<lambda>(cat, info). 10 #
       [0x2022, 32] @ ascii ''<b>'' @ cat @ ascii ''</b> ('' @
       str_int (int (length (get_links info))) @ ascii '')'' @
       (if truthy (channel_username data) \<and> msg_id_set (message_id info)
        then [32, 0x2014, 32] @ ascii ''<a href='' @ [34] @ ascii ''https://t.me/'' @
             dropWhile (\<lambda>c. c = 64) (fmt (channel_username data)) @ ascii ''/'' @
             (case message_id info of Num n \<Rightarrow> str_int n | _ \<Rightarrow> ascii ''None'') @
             [34] @ ascii ''>ir</a>''
        else [])) (categorias data))"
  unfolding format_index_def index_lines_closed
  by (simp add: py_join_Cons comp_def split_def)

text \<open>
  Claim C6, amended. The lookup of /add compares \<^verbatim>\<open>lower()\<close> of the key with
  \<^verbatim>\<open>lower()\<close> of the name given and takes the first key that matches in the order of
  the mapping; the lower-cased and the upper-cased spelling of the example key find
  what the key itself finds. The stored key, as it is written, is what the
  confirmation reply of /add and each line of the index display; the header of the
  category message displays the stored key upper-cased.
\<close>

theorem category_lookup_and_display:
  "(\<forall>pre k post.
      map fst (categorias data) = pre @ k # post \<and> lower k = lower name \<and>
      (\<forall>k'\<in>set pre. lower k' \<noteq> lower name) \<longrightarrow>
      (\<exists>ks. category_matches lower data name = k # ks)) \<and>
   category_matches latin1_lower data diseno_lowercase = category_matches latin1_lower data Diseno \<and>
   category_matches latin1_lower data diseno_uppercase = category_matches latin1_lower data Diseno \<and>
   (\<forall>k ks c t u.
      parse_add_args (message_text upd) = (Some c, Some t, Some u) \<and> data_file w = Some data \<and>
      category_matches lower data c = k # ks \<and>
      fst (add_command lower upper r upd w) = Inr () \<longrightarrow>
      last (trace (snd (add_command lower upper r upd w))) =
        Reply (ascii ''Enlace agregado a <b>'' @ k @ ascii ''</b> '' @ [0x2705])) \<and>
   (\<exists>ls. length ls = length (categorias data) \<and>
         format_index data = index_header @ concat (map (\<lambda>l. 10 # l) ls) \<and>
         (\<forall>i<length ls. \<exists>rest.
            ls ! i = [0x2022, 32] @ ascii ''<b>'' @ fst (categorias data ! i) @ ascii ''</b> ('' @
                     rest)) \<and>
   (\<forall>k lks. \<exists>rest.
      format_category_message upper k lks =
        [0x1F4CE, 32] @ ascii ''<b>'' @ upper k @ ascii ''</b> ('' @ rest)"
proof (intro conjI allI impI)
  fix pre k post
  assume "map fst (categorias data) = pre @ k # post \<and> lower k = lower name \<and>
      (\<forall>k'\<in>set pre. lower k' \<noteq> lower name)"
  then show "\<exists>ks. category_matches lower data name = k # ks"
    using category_matches_first [of data pre k post lower name] by blast
next
  show "category_matches latin1_lower data diseno_lowercase =
        category_matches latin1_lower data Diseno"
    by (simp add: category_matches_def latin1_lower_def diseno_lowercase_def Diseno_def ascii_def)
  show "category_matches latin1_lower data diseno_uppercase =
        category_matches latin1_lower data Diseno"
    by (simp add: category_matches_def latin1_lower_def diseno_uppercase_def Diseno_def ascii_def)
next
  fix k ks c t u
  assume "parse_add_args (message_text upd) = (Some c, Some t, Some u) \<and>
      data_file w = Some data \<and> category_matches lower data c = k # ks \<and>
      fst (add_command lower upper r upd w) = Inr ()"
  then have "last (trace (snd (add_command lower upper r upd w))) = Reply (added_text k)"
    by (intro add_command_reply_last) auto
  then show "last (trace (snd (add_command lower upper r upd w))) =
        Reply (ascii ''Enlace agregado a <b>'' @ k @ ascii ''</b> '' @ [0x2705])"
    by (simp add: added_text_def)
next
  define line where "line = (\<lambda>(cat, info).
       [0x2022, 32] @ ascii ''<b>'' @ cat @ ascii ''</b> ('' @
       str_int (int (length (get_links info))) @ ascii '')'' @
       (if truthy (channel_username data) \<and> msg_id_set (message_id info)
        then [32, 0x2014, 32] @ ascii ''<a href='' @ [34] @ ascii ''https://t.me/'' @
             dropWhile (\<lambda>c. c = 64) (fmt (channel_username data)) @ ascii ''/'' @
             (case message_id info of Num n \<Rightarrow> str_int n | _ \<Rightarrow> ascii ''None'') @
             [34] @ ascii ''>ir</a>''
        else []))"
  define ls where "ls = map line (categorias data)"
  have a: "length ls = length (categorias data)" by (simp add: ls_def)
  have b: "format_index data = index_header @ concat (map (\<lambda>l. 10 # l) ls)"
    unfolding format_index_closed ls_def line_def by (simp add: comp_def split_def)
  have c: "\<forall>i<length ls. \<exists>rest.
            ls ! i = [0x2022, 32] @ ascii ''<b>'' @ fst (categorias data ! i) @ ascii ''</b> ('' @
                     rest"
    by (simp add: ls_def line_def split_def)
  show "\<exists>ls. length ls = length (categorias data) \<and>
         format_index data = index_header @ concat (map (\<lambda>l. 10 # l) ls) \<and>
         (\<forall>i<length ls. \<exists>rest.
            ls ! i = [0x2022, 32] @ ascii ''<b>'' @ fst (categorias data ! i) @ ascii ''</b> ('' @
                     rest)"
    using a b c by blast
next
  fix k lks
  show "\<exists>rest. format_category_message upper k lks =
        [0x1F4CE, 32] @ ascii ''<b>'' @ upper k @ ascii ''</b> ('' @ rest"
    by (simp add: format_category_message_def Let_def)
qed

theorem category_lookup_and_display_witness:
  "map fst (categorias diseno_doc) = [ascii ''Videos''] @ Diseno # [] \<and>
   latin1_lower Diseno = latin1_lower diseno_uppercase \<and>
   list_all (\<lambda>k'. latin1_lower k' \<noteq> latin1_lower diseno_uppercase) [ascii ''Videos''] \<and>
   category_matches latin1_lower diseno_doc diseno_lowercase = [Diseno] \<and>
   category_matches latin1_lower diseno_doc diseno_uppercase = [Diseno] \<and>
   parse_add_args (message_text (update_of add_uppercase_example)) =
     (Some diseno_uppercase, Some [], Some example_url) \<and>
   fst (add_command latin1_lower latin1_upper remote_ok (update_of add_uppercase_example)
          (world_of diseno_doc)) = Inr () \<and>
   last (trace (snd (add_command latin1_lower latin1_upper remote_ok
                       (update_of add_uppercase_example) (world_of diseno_doc)))) =
     Reply (ascii ''Enlace agregado a <b>'' @ Diseno @ ascii ''</b> '' @ [0x2705])"
proof -
  note T = category_lookup_and_display
             [where data = diseno_doc and lower = latin1_lower and upper = latin1_upper
                and r = remote_ok and upd = "update_of add_uppercase_example"
                and w = "world_of diseno_doc" and name = diseno_uppercase]
  have keys: "map fst (categorias diseno_doc) = [ascii ''Videos''] @ Diseno # []"
    by (simp add: diseno_doc_def)
  have same: "latin1_lower Diseno = latin1_lower diseno_uppercase"
    by (simp add: latin1_lower_def Diseno_def diseno_uppercase_def ascii_def)
  have others: "\<forall>k'\<in>set [ascii ''Videos'']. latin1_lower k' \<noteq> latin1_lower diseno_uppercase"
    by (simp add: latin1_lower_def diseno_uppercase_def ascii_def)
  have m: "category_matches latin1_lower diseno_doc Diseno = [Diseno]"
    by (simp add: category_matches_def diseno_doc_def latin1_lower_def Diseno_def ascii_def)
  have lo: "category_matches latin1_lower diseno_doc diseno_lowercase = [Diseno]"
    using T [THEN conjunct2, THEN conjunct1] m by simp
  have up: "category_matches latin1_lower diseno_doc diseno_uppercase = [Diseno]"
    using T [THEN conjunct2, THEN conjunct2, THEN conjunct1] m by simp
  from T [THEN conjunct1, rule_format, of "[ascii ''Videos'']" Diseno "[]"] keys same others
  obtain ks where "category_matches latin1_lower diseno_doc diseno_uppercase = Diseno # ks"
    by blast
  have p: "parse_add_args (message_text (update_of add_uppercase_example)) =
     (Some diseno_uppercase, Some [], Some example_url)"
    by (simp add: str_defs parse_add_args_def add_uppercase_example_def diseno_uppercase_def
        example_url_def update_of_def)
  have f: "data_file (world_of diseno_doc) = Some diseno_doc" by (simp add: world_of_def)
  have t: "\<not> truthy (channel_username diseno_doc)" by (simp add: diseno_doc_def truthy_def)
  have ok: "fst (add_command latin1_lower latin1_upper remote_ok
                   (update_of add_uppercase_example) (world_of diseno_doc)) = Inr ()"
    using add_command_matched [OF p f up, of latin1_upper remote_ok] t by (simp add: Let_def)
  have "last (trace (snd (add_command latin1_lower latin1_upper remote_ok
                       (update_of add_uppercase_example) (world_of diseno_doc)))) =
     Reply (ascii ''Enlace agregado a <b>'' @ Diseno @ ascii ''</b> '' @ [0x2705])"
    using T [THEN conjunct2, THEN conjunct2, THEN conjunct2, THEN conjunct1, rule_format,
             of diseno_uppercase "[]" example_url Diseno "[]"] p f up ok
    by blast
  then show ?thesis using keys same others lo up p ok by (simp add: list_all_iff)
qed

section \<open>Message ids and links only grow\<close>

lemma category_grows_refl: "category_grows c c"
  by (simp add: category_grows_def split: option.splits)

lemma category_grows_trans:
  "category_grows a b \<Longrightarrow> category_grows b c \<Longrightarrow> category_grows a c"
  by (auto simp: category_grows_def split: option.splits)

lemma document_grows_refl: "document_grows d d"
  by (simp add: document_grows_def list_all2_same category_grows_refl split_def)

lemma document_grows_trans:
  assumes "document_grows a b" "document_grows b c"
  shows "document_grows a c"
proof -
  let ?P = "\<lambda>(k, c) (k', c'). k' = k \<and> category_grows c c'"
  have ab: "list_all2 ?P (categorias a) (categorias b)"
    and bc: "list_all2 ?P (categorias b) (categorias c)"
    using assms by (simp_all add: document_grows_def)
  have "list_all2 ?P (categorias a) (categorias c)"
  proof (rule list_all2_trans [OF _ ab bc])
    fix x y z assume "?P x y" "?P y z"
    then show "?P x z" by (auto intro: category_grows_trans)
  qed
  then show ?thesis using assms by (auto simp: document_grows_def)
qed

lemma map_entry_grows:
  "map_of xs k = Some v \<Longrightarrow> category_grows v (f v) \<Longrightarrow>
   list_all2 (\<lambda>(k, c) (k', c'). k' = k \<and> category_grows c c') xs (AList.map_entry k f xs)"
  by (induction xs)
     (auto simp: list_all2_same category_grows_refl split_def split: if_splits)

lemma set_message_id_grows:
  assumes "map_of (categorias data) cat = Some info" "\<not> msg_id_set (message_id info)"
  shows "document_grows data (set_message_id cat mid data)"
proof -
  have "category_grows info (info\<lparr>message_id := Num mid\<rparr>)"
    using assms(2) by (simp add: category_grows_def split: option.splits)
  from map_entry_grows [OF assms(1), of "\<lambda>info. info\<lparr>message_id := Num mid\<rparr>", OF this]
  show ?thesis by (simp add: document_grows_def set_message_id_def)
qed

lemma append_link_grows:
  assumes "k \<in> fst ` set (categorias data)"
  shows "document_grows data (append_link k entry data)"
proof -
  from assms obtain info where i: "map_of (categorias data) k = Some info"
    by (metis map_of_eq_None_iff not_Some_eq)
  have "category_grows info (info\<lparr>links := Some (get_links info @ [entry])\<rparr>)"
    by (simp add: category_grows_def get_links_def split: option.splits)
  from map_entry_grows [OF i, of "\<lambda>info. info\<lparr>links := Some (get_links info @ [entry])\<rparr>",
      OF this]
  show ?thesis by (simp add: document_grows_def append_link_def)
qed

lemma set_message_id_other:
  "c \<noteq> cat \<Longrightarrow> map_of (categorias (set_message_id cat mid data)) c = map_of (categorias data) c"
  by (simp add: set_message_id_def map_of_map_entry)

lemma items_after_set_message_id:
  assumes "\<forall>(c, i)\<in>set ((cat, info) # rest). map_of (categorias data) c = Some i"
    and "distinct (map fst ((cat, info) # rest))"
  shows "\<forall>(c, i)\<in>set rest. map_of (categorias (set_message_id cat mid data)) c = Some i"
proof (clarify)
  fix c i assume ci: "(c, i) \<in> set rest"
  then have "c \<noteq> cat" using assms(2) by force
  then show "map_of (categorias (set_message_id cat mid data)) c = Some i"
    using assms(1) ci by (auto simp: set_message_id_other)
qed

lemma ensure_categories_grows:
  assumes "\<forall>(cat, info)\<in>set items. map_of (categorias data) cat = Some info"
    and "distinct (map fst items)"
  shows "data_file (snd (ensure_categories upper r chat items (data, m, w))) = data_file w \<and>
         (\<forall>data' m'. fst (ensure_categories upper r chat items (data, m, w)) = Inr (data', m') \<longrightarrow>
            document_grows data data')"
  using assms
proof (induction items arbitrary: data m w)
  case Nil
  then show ?case by (simp add: document_grows_refl)
next
  case (Cons item rest)
  obtain cat info where item: "item = (cat, info)" by (cases item)
  have here: "map_of (categorias data) cat = Some info" using Cons.prems(1) item by simp
  have rest1: "\<forall>(c, i)\<in>set rest. map_of (categorias data) c = Some i"
    using Cons.prems(1) by simp
  have rest2: "distinct (map fst rest)" using Cons.prems(2) by simp
  show ?case
  proof (cases "msg_id_set (message_id info)")
    case True
    then show ?thesis using Cons.IH [OF rest1 rest2, of m w] by (simp add: item)
  next
    case False
    show ?thesis
    proof (cases "r (ncalls w)")
      case Raised
      then show ?thesis using False by (simp add: item io_defs)
    next
      case (Returned mid)
      let ?data1 = "set_message_id cat mid data"
      let ?w1 = "logger Info (CreatedCategory cat mid)
                   (snd (bot_call r (SendMessage chat
                      (format_category_message upper cat (get_links info)) False) w))"
      have step: "ensure_categories upper r chat (item # rest) (data, m, w) =
                  ensure_categories upper r chat rest (?data1, True, ?w1)"
        using False Returned by (simp add: item io_defs)
      have g1: "document_grows data ?data1" by (rule set_message_id_grows [OF here False])
      have r1: "\<forall>(c, i)\<in>set rest. map_of (categorias ?data1) c = Some i"
        using items_after_set_message_id [of cat info rest data mid] Cons.prems item by simp
      have f1: "data_file ?w1 = data_file w" by (simp add: io_defs)
      from Cons.IH [OF r1 rest2, of True ?w1] g1 f1 show ?thesis
        unfolding step by (auto intro: document_grows_trans)
    qed
  qed
qed

lemma refresh_categories_grows:
  assumes "\<forall>(cat, info)\<in>set items. map_of (categorias data) cat = Some info"
    and "distinct (map fst items)"
  shows "data_file (snd (refresh_categories upper r chat items (data, w))) = data_file w \<and>
         document_grows data (fst (refresh_categories upper r chat items (data, w)))"
  using assms
proof (induction items arbitrary: data w)
  case Nil
  then show ?case by (simp add: document_grows_refl)
next
  case (Cons item rest)
  obtain cat info where item: "item = (cat, info)" by (cases item)
  have here: "map_of (categorias data) cat = Some info" using Cons.prems(1) item by simp
  have rest1: "\<forall>(c, i)\<in>set rest. map_of (categorias data) c = Some i"
    using Cons.prems(1) by simp
  have rest2: "distinct (map fst rest)" using Cons.prems(2) by simp
  show ?case
  proof (cases "msg_id_set (message_id info)")
    case True
    then obtain w1 where step: "refresh_categories upper r chat (item # rest) (data, w) =
                  refresh_categories upper r chat rest (data, w1)" and "data_file w1 = data_file w"
      by (cases "r (ncalls w)") (simp_all add: item io_defs)
    then show ?thesis using Cons.IH [OF rest1 rest2, of w1] by simp
  next
    case False
    show ?thesis
    proof (cases "r (ncalls w)")
      case Raised
      then obtain w1 where step: "refresh_categories upper r chat (item # rest) (data, w) =
                  refresh_categories upper r chat rest (data, w1)" and "data_file w1 = data_file w"
        using False by (simp add: item io_defs)
      then show ?thesis using Cons.IH [OF rest1 rest2, of w1] by simp
    next
      case (Returned mid)
      let ?data1 = "set_message_id cat mid data"
      obtain w1 where step: "refresh_categories upper r chat (item # rest) (data, w) =
                  refresh_categories upper r chat rest (?data1, w1)"
        and f1: "data_file w1 = data_file w"
        using False Returned by (simp add: item io_defs)
      have g1: "document_grows data ?data1" by (rule set_message_id_grows [OF here False])
      have r1: "\<forall>(c, i)\<in>set rest. map_of (categorias ?data1) c = Some i"
        using items_after_set_message_id [of cat info rest data mid] Cons.prems item by simp
      from Cons.IH [OF r1 rest2, of w1] g1 f1 show ?thesis
        unfolding step by (auto intro: document_grows_trans)
    qed
  qed
qed

lemma items_of_distinct:
  "distinct (map fst xs) \<Longrightarrow> \<forall>(c, i)\<in>set xs. map_of xs c = Some i"
  by auto

lemma add_command_grows:
  assumes "data_file w = Some d"
  shows "\<exists>d'. data_file (snd (add_command lower upper r upd w)) = Some d' \<and> document_grows d d'"
proof -
  obtain c t u where p: "parse_add_args (message_text upd) = (c, t, u)"
    by (cases "parse_add_args (message_text upd)")
  show ?thesis
  proof (cases "truthy c \<and> truthy u")
    case False
    then have "add_command lower upper r upd w = (Inr (), reply_text usage_text w)"
      using p by (auto simp: add_command_def)
    then show ?thesis using assms by (simp add: reply_text_def document_grows_refl)
  next
    case True
    then obtain c' u' where cu: "c = Some c'" "u = Some u'"
      by (auto simp: truthy_def split: option.splits)
    note p' = p [unfolded cu]
    show ?thesis
    proof (cases "category_matches lower d c'")
      case Nil
      then show ?thesis
        using add_command_unmatched [OF p' assms, of lower upper r] assms
        by (simp add: reply_text_def document_grows_refl)
    next
      case (Cons k ks)
      have "k \<in> fst ` set (categorias d)" by (rule category_matches_key [OF Cons])
      then show ?thesis
        using add_command_saved [OF p' assms Cons, of upper r] by (simp add: append_link_grows)
    qed
  qed
qed

lemma refresh_command_grows:
  assumes "data_file w = Some d" "distinct (map fst (categorias d))"
  shows "\<exists>d'. data_file (snd (refresh_command upper r w)) = Some d' \<and> document_grows d d'"
proof (cases "truthy (channel_username d)")
  case False
  then show ?thesis using assms(1)
    by (simp add: refresh_command_def load_data_def reply_text_def document_grows_refl)
next
  case True
  define chat where "chat = fmt (channel_username d)"
  obtain d1 w1 where loop: "refresh_categories upper r chat (categorias d) (d, w) = (d1, w1)"
    by fastforce
  have g1: "document_grows d d1"
    using refresh_categories_grows [OF items_of_distinct [OF assms(2)] assms(2), of upper r chat w]
      loop by simp
  define d2 where "d2 = (if int_set (indice_message_id d1) then d1
      else case r (ncalls w1) of Raised \<Rightarrow> d1
           | Returned mid \<Rightarrow> d1\<lparr>indice_message_id := Some mid\<rparr>)"
  have g2: "document_grows d1 d2"
    by (cases "r (ncalls w1)")
       (auto simp: d2_def document_grows_def list_all2_same category_grows_refl)
  have "data_file (snd (refresh_command upper r w)) = Some d2"
    using assms(1) True loop
    by (cases "r (ncalls w1)")
       (simp_all add: refresh_command_def load_data_def chat_def [symmetric] d2_def io_defs
          Let_def)
  then show ?thesis using document_grows_trans [OF g1 g2] by blast
qed

lemma ensure_channel_messages_grows:
  assumes "data_file w = Some d" "distinct (map fst (categorias d))"
  shows "\<exists>d'. data_file (snd (ensure_channel_messages upper r w)) = Some d' \<and>
              document_grows d d'"
proof (cases "truthy (channel_username d)")
  case False
  then show ?thesis using assms(1)
    by (simp add: ensure_channel_messages_def load_data_def logger_def document_grows_refl)
next
  case True
  define chat where "chat = fmt (channel_username d)"
  define index_step where "index_step =
     (if \<not> int_set (indice_message_id d)
      then let text = format_index d;
               (msg, w1) = bot_call r (SendMessage chat text True) w
           in case msg of
                Raised \<Rightarrow> (Inl RemoteError, w1)
              | Returned mid \<Rightarrow>
                  (Inr (d\<lparr>indice_message_id := Some mid\<rparr>, True),
                   logger Info (CreatedIndex mid) w1)
      else (Inr (d, False), w))"
  have unfold: "ensure_channel_messages upper r w =
     (case index_step of
        (Inl e, w1) \<Rightarrow> (Inl e, w1)
      | (Inr (data1, modified1), w1) \<Rightarrow>
          (case ensure_categories upper r chat (categorias data1) (data1, modified1, w1) of
             (Inl e, w2) \<Rightarrow> (Inl e, w2)
           | (Inr (data2, modified2), w2) \<Rightarrow>
               if modified2
               then (Inr (), logger Info DataUpdated (save_data data2 w2))
               else (Inr (), w2)))"
    unfolding chat_def index_step_def using assms(1) True
    by (simp add: ensure_channel_messages_def load_data_def Let_def)
  obtain o1 w1 where s1: "index_step = (o1, w1)" by fastforce
  have f1: "data_file w1 = Some d"
    using s1 assms(1) by (cases "r (ncalls w)") (auto simp: index_step_def io_defs split: if_splits)
  show ?thesis
  proof (cases o1)
    case (Inl e)
    then show ?thesis using unfold s1 f1 by (simp add: document_grows_refl)
  next
    case (Inr p)
    obtain d1 m1 where p: "p = (d1, m1)" by (cases p)
    have d1: "document_grows d d1 \<and> categorias d1 = categorias d"
      using s1 Inr p
      by (cases "r (ncalls w)")
         (auto simp: index_step_def io_defs document_grows_def list_all2_same category_grows_refl
            split: if_splits)
    then have dist: "distinct (map fst (categorias d1))" using assms(2) by simp
    obtain o2 w2 where s2: "ensure_categories upper r chat (categorias d1) (d1, m1, w1) = (o2, w2)"
      by fastforce
    have l: "data_file w2 = Some d \<and> (\<forall>data' m'. o2 = Inr (data', m') \<longrightarrow> document_grows d1 data')"
      using ensure_categories_grows [OF items_of_distinct [OF dist] dist, of upper r chat m1 w1]
        s2 f1 by simp
    show ?thesis
    proof (cases o2)
      case (Inl e)
      then show ?thesis using unfold s1 Inr p s2 l by (simp add: document_grows_refl)
    next
      case (Inr q)
      obtain d2 m2 where q: "q = (d2, m2)" by (cases q)
      have "document_grows d d2" using l Inr q d1 by (blast intro: document_grows_trans)
      then show ?thesis
        using unfold s1 \<open>o1 = Inr p\<close> p s2 Inr q l
        by (cases m2) (simp_all add: io_defs document_grows_refl)
    qed
  qed
qed

text \<open>
  Claim C8. For /add, /refresh and the startup reconciliation, whatever the channel
  answers: the file holds a document afterwards, in which \<^verbatim>\<open>indice_message_id\<close> and
  the \<^verbatim>\<open>message_id\<close> of every category are unchanged if they were set before (so an id is
  only written where none was set, and is never cleared or overwritten), and in which
  every category has its old links, unchanged and in order, as a prefix of its links.
  The keys of \<^verbatim>\<open>categorias\<close> are distinct, as the keys of a \<^verbatim>\<open>dict\<close> are.
\<close>

text \<open>
  Claim C8. For /add, /refresh and the startup reconciliation, whatever the channel
  answers: the file holds a document afterwards, in which \<^verbatim>\<open>indice_message_id\<close> and
  the \<^verbatim>\<open>message_id\<close> of every category are unchanged if they were set before (so an id is
  only written where none was set, and is never cleared or overwritten), and in which
  every category that had a \<^verbatim>\<open>links\<close> list still has one, with the old entries,
  unchanged and in order, as its prefix. The keys of \<^verbatim>\<open>categorias\<close> are distinct, as the
  keys of a \<^verbatim>\<open>dict\<close> are.
\<close>

theorem message_ids_and_links_only_grow:
  "data_file w = Some d \<and> distinct (map fst (categorias d)) \<longrightarrow>
   (\<exists>d'. data_file (snd (add_command lower upper r upd w)) = Some d' \<and> document_grows d d') \<and>
   (\<exists>d'. data_file (snd (refresh_command upper r w)) = Some d' \<and> document_grows d d') \<and>
   (\<exists>d'. data_file (snd (ensure_channel_messages upper r w)) = Some d' \<and> document_grows d d')"
  using add_command_grows refresh_command_grows ensure_channel_messages_grows by blast

text \<open>
  The three operations on a catalogue with a set index id, a category with a set id and
  two stored links, and a category without id: the documents they leave in the file,
  which grow from the old one, and three documents that do not (a link list cut, a
  category id replaced, the index id cleared).
\<close>

theorem message_ids_and_links_only_grow_witness:
  "distinct (map fst (categorias stocked_doc)) \<and>
   data_file (snd (add_command latin1_lower latin1_upper remote_ok stocked_update
                     (world_of stocked_doc))) = Some stocked_after_add \<and>
   data_file (snd (refresh_command latin1_upper remote_ok (world_of stocked_doc))) =
     Some (stocked_with_id 101) \<and>
   data_file (snd (ensure_channel_messages latin1_upper remote_ok (world_of stocked_doc))) =
     Some (stocked_with_id 100) \<and>
   document_grows stocked_doc stocked_after_add \<and>
   document_grows stocked_doc (stocked_with_id 101) \<and>
   document_grows stocked_doc (stocked_with_id 100) \<and>
   \<not> document_grows stocked_doc
       (stocked_doc\<lparr>categorias :=
          [(ascii ''Videos'', \<lparr>message_id = Num 7, links = Some []\<rparr>),
           (Diseno, \<lparr>message_id = Null, links = None\<rparr>)]\<rparr>) \<and>
   \<not> document_grows stocked_doc
       (stocked_doc\<lparr>categorias :=
          [(ascii ''Videos'', (snd (hd (categorias stocked_doc)))\<lparr>message_id := Num 8\<rparr>),
           (Diseno, \<lparr>message_id = Null, links = None\<rparr>)]\<rparr>) \<and>
   \<not> document_grows stocked_doc (stocked_doc\<lparr>indice_message_id := None\<rparr>)"
proof -
  have d: "data_file (world_of stocked_doc) = Some stocked_doc \<and>
           distinct (map fst (categorias stocked_doc))"
    by (simp add: world_of_def stocked_doc_def Diseno_def ascii_def)
  note T = message_ids_and_links_only_grow
            [of "world_of stocked_doc" stocked_doc latin1_lower latin1_upper remote_ok
                stocked_update, rule_format, OF d]
  have p: "parse_add_args (message_text stocked_update) =
             (Some (ascii ''videos''), Some (ascii ''Otro''), Some (ascii ''https://example.com/y''))"
    by (simp add: str_defs parse_add_args_def stocked_update_def update_of_def)
  have k: "category_matches latin1_lower stocked_doc (ascii ''videos'') = [ascii ''Videos'']"
    by (simp add: category_matches_def stocked_doc_def latin1_lower_def Diseno_def ascii_def)
  have a: "data_file (snd (add_command latin1_lower latin1_upper remote_ok stocked_update
                     (world_of stocked_doc))) = Some stocked_after_add"
    unfolding add_command_saved [OF p d [THEN conjunct1] k]
    by (simp add: append_link_def stocked_doc_def stocked_after_add_def stocked_update_def
        update_of_def py_or_def truthy_def get_links_def ascii_def)
  have r: "data_file (snd (refresh_command latin1_upper remote_ok (world_of stocked_doc))) =
     Some (stocked_with_id 101)"
    by (simp add: refresh_command_def io_defs world_of_def remote_ok_def stocked_doc_def
        stocked_with_id_def truthy_def int_set_def msg_id_set_def set_message_id_def Let_def
        ascii_def Diseno_def)
  have e: "data_file (snd (ensure_channel_messages latin1_upper remote_ok (world_of stocked_doc))) =
     Some (stocked_with_id 100)"
    by (simp add: ensure_channel_messages_def io_defs world_of_def remote_ok_def stocked_doc_def
        stocked_with_id_def truthy_def int_set_def msg_id_set_def set_message_id_def Let_def
        ascii_def Diseno_def)
  have ga: "document_grows stocked_doc stocked_after_add"
    using T [THEN conjunct1] unfolding a by simp
  have gr: "document_grows stocked_doc (stocked_with_id 101)"
    using T [THEN conjunct2, THEN conjunct1] unfolding r by simp
  have ge: "document_grows stocked_doc (stocked_with_id 100)"
    using T [THEN conjunct2, THEN conjunct2] unfolding e by simp
  have n1: "\<not> document_grows stocked_doc
       (stocked_doc\<lparr>categorias :=
          [(ascii ''Videos'', \<lparr>message_id = Num 7, links = Some []\<rparr>),
           (Diseno, \<lparr>message_id = Null, links = None\<rparr>)]\<rparr>)"
    by (simp add: document_grows_def category_grows_def stocked_doc_def)
  have n2: "\<not> document_grows stocked_doc
       (stocked_doc\<lparr>categorias :=
          [(ascii ''Videos'', (snd (hd (categorias stocked_doc)))\<lparr>message_id := Num 8\<rparr>),
           (Diseno, \<lparr>message_id = Null, links = None\<rparr>)]\<rparr>)"
    by (simp add: document_grows_def category_grows_def stocked_doc_def msg_id_set_def)
  have n3: "\<not> document_grows stocked_doc (stocked_doc\<lparr>indice_message_id := None\<rparr>)"
    by (simp add: document_grows_def stocked_doc_def int_set_def)
  show ?thesis using d a r e ga gr ge n1 n2 n3 by (intro conjI) simp_all
qed

end
